theory Spec2Isabelle
  imports Complex_Main
begin

section \<open>The lattice Hamiltonian of \<open>docs/examples/ex_2d.ipynb\<close>\<close>

text \<open>
  The notebook defines \<open>ham_heis_2D(n, m, j=1.0, bz=0.0, cyclic=False, sparse=True)\<close>.
  Lattice coordinates are Python integers, a site is a tuple \<open>(i, j)\<close>, and a bond
  is a tuple of two sites.
\<close>

type_synonym site = "int \<times> int"
type_synonym bond = "site \<times> site"

text \<open>The exceptions that the code of the notebooks can raise.\<close>

datatype py_error = NameError string | IndexError | AttributeError

text \<open>\<open>range(n)\<close>: the integers \<open>0, ..., n - 1\<close>, empty when \<open>n \<le> 0\<close>.\<close>

definition py_range :: "int \<Rightarrow> int list" where
  "py_range n = [0..n - 1]"

text \<open>\<open>dims = [[2] * m] * n\<close>; repeating a list a non-positive number of times
  gives the empty list.\<close>

definition dims_of :: "int \<Rightarrow> int \<Rightarrow> int list list" where
  "dims_of n m = replicate (nat n) (replicate (nat m) 2)"

text \<open>\<open>sites = tuple(itertools.product(range(n), range(m)))\<close>\<close>

definition sites :: "int \<Rightarrow> int \<Rightarrow> site list" where
  "sites n m = List.product (py_range n) (py_range m)"

text \<open>
  The generator \<open>gen_pairs\<close>: for every site in order, first the bond to the site
  above, then the bond to the site on the right, each unless it is a wraparound
  coordinate of a non-cyclic lattice. The remainder \<open>%\<close> is only evaluated for a
  site of the lattice, hence with a positive modulus, where Python's \<open>%\<close> and
  \<open>mod\<close> on \<open>int\<close> agree.
\<close>

definition pairs_at :: "int \<Rightarrow> int \<Rightarrow> bool \<Rightarrow> site \<Rightarrow> bond list" where
  "pairs_at n m cyclic s =
     (case s of (i, j) \<Rightarrow>
        let above = (i + 1) mod n; right = (j + 1) mod m in
        (if cyclic \<or> above \<noteq> 0 then [((i, j), (above, j))] else []) @
        (if cyclic \<or> right \<noteq> 0 then [((i, j), (i, right))] else []))"

definition gen_pairs :: "int \<Rightarrow> int \<Rightarrow> bool \<Rightarrow> bond list" where
  "gen_pairs n m cyclic = concat (map (pairs_at n m cyclic) (sites n m))"

text \<open>\<open>pairs_ss = tuple(itertools.product(gen_pairs(), 'xyz'))\<close>\<close>

definition pairs_ss :: "int \<Rightarrow> int \<Rightarrow> bool \<Rightarrow> (bond \<times> char) list" where
  "pairs_ss n m cyclic = List.product (gen_pairs n m cyclic) ''xyz''"

text \<open>
  The functions of the library that \<open>ham_heis_2D\<close> calls are parameters of the
  model. Operators are values of a type \<open>'q\<close> with the library's addition \<open>+\<close>.
\<close>

record 'q quimb =
  spin_operator :: "char \<Rightarrow> 'q"
  smul :: "real \<Rightarrow> 'q \<Rightarrow> 'q"
  ikron :: "'q \<Rightarrow> int list list \<Rightarrow> site list \<Rightarrow> 'q"
  isreal :: "'q \<Rightarrow> bool"
  real_part :: "'q \<Rightarrow> 'q"
  to_dense :: "'q \<Rightarrow> 'q"

text \<open>\<open>interactions(pair_s)\<close>: \<open>ikron(j * spin_operator(s, sparse=True), dims, inds=pair)\<close>\<close>

definition interactions ::
  "'q quimb \<Rightarrow> int list list \<Rightarrow> real \<Rightarrow> bond \<times> char \<Rightarrow> 'q" where
  "interactions L dims j pair_s =
     (case pair_s of (pair, s) \<Rightarrow>
        let Sxyz = spin_operator L s in
        ikron L (smul L j Sxyz) dims [fst pair, snd pair])"

text \<open>\<open>fields(site)\<close>: \<open>ikron(bz * spin_operator('z', sparse=True), dims, inds=[site])\<close>.
  The name \<open>fields\<close> is taken by the record package, hence \<open>fields_z\<close>.\<close>

definition fields_z :: "'q quimb \<Rightarrow> int list list \<Rightarrow> real \<Rightarrow> site \<Rightarrow> 'q" where
  "fields_z L dims bz site =
     (let Sz = spin_operator L CHR ''z'' in ikron L (smul L bz Sz) dims [site])"

text \<open>\<open>all_terms\<close>: the interaction terms, chained with the field terms if \<open>bz != 0.0\<close>.\<close>

definition all_terms ::
  "'q quimb \<Rightarrow> int \<Rightarrow> int \<Rightarrow> real \<Rightarrow> real \<Rightarrow> bool \<Rightarrow> 'q list" where
  "all_terms L n m j bz cyclic =
     (let dims = dims_of n m in
      map (interactions L dims j) (pairs_ss n m cyclic) @
      (if bz \<noteq> 0 then map (fields_z L dims bz) (sites n m) else []))"

text \<open>
  \<open>H = sum(all_terms)\<close>. Python's \<open>sum\<close> is a left fold of \<open>+\<close> that starts from the
  integer \<open>0\<close>: with no term the result is this integer, not a matrix. With terms, the
  first step \<open>0 + t\<close> is the library's addition of the integer zero to a matrix, which
  gives the matrix; the notebook's own run rests on it.
\<close>

datatype 'q pyval = IntZero | Matrix 'q

definition py_add :: "'q::plus pyval \<Rightarrow> 'q \<Rightarrow> 'q pyval" where
  "py_add H t = (case H of IntZero \<Rightarrow> Matrix t | Matrix A \<Rightarrow> Matrix (A + t))"

definition py_sum :: "'q::plus list \<Rightarrow> 'q pyval" where
  "py_sum xs = foldl py_add IntZero xs"

text \<open>The end of the function, for a matrix: \<open>H.real\<close> if \<open>isreal(H)\<close>, and a dense copy
  \<open>qarray(H.A)\<close> unless \<open>sparse\<close>.\<close>

definition finish_matrix :: "'q quimb \<Rightarrow> bool \<Rightarrow> 'q \<Rightarrow> 'q" where
  "finish_matrix L sparse H =
     (let H = (if isreal L H then real_part L H else H);
          H = (if \<not> sparse then to_dense L H else H)
      in H)"

text \<open>
  The end of the function. When \<open>H\<close> is the integer \<open>0\<close>, either branch of \<open>isreal(H)\<close>
  leaves it \<open>0\<close> (\<open>(0).real\<close> is \<open>0\<close>); then \<open>H.A\<close> raises \<open>AttributeError\<close> unless \<open>sparse\<close>,
  and with \<open>sparse\<close> the integer is returned.
\<close>

definition finish :: "'q quimb \<Rightarrow> bool \<Rightarrow> 'q pyval \<Rightarrow> py_error + 'q pyval" where
  "finish L sparse H =
     (case H of
        IntZero \<Rightarrow> (if \<not> sparse then Inl AttributeError else Inr IntZero)
      | Matrix A \<Rightarrow> Inr (Matrix (finish_matrix L sparse A)))"

definition ham_heis_2D ::
  "'q::plus quimb \<Rightarrow> int \<Rightarrow> int \<Rightarrow> real \<Rightarrow> real \<Rightarrow> bool \<Rightarrow> bool \<Rightarrow> py_error + 'q pyval" where
  "ham_heis_2D L n m j bz cyclic sparse =
     (let H = py_sum (all_terms L n m j bz cyclic) in finish L sparse H)"

section \<open>Notebooks as programs on their namespace\<close>

text \<open>
  A notebook runs its cells in order on one global namespace. A program is a function
  from the namespace to an error or a result with the new namespace; reading a name
  that is not bound raises \<open>NameError\<close>, an index out of range \<open>IndexError\<close>.
\<close>

text \<open>What a notebook does that is visible from outside a statement: an import, the
  binding of a name, a library call made for its effect, and output.\<close>

datatype event =
    Import string
  | Assign string
  | Call string
  | Show string
  | PrintRow "int list"
  | PrintRound int real

type_synonym ('s, 'a) prog = "'s \<Rightarrow> py_error + 'a \<times> 's"

definition ret :: "'a \<Rightarrow> ('s, 'a) prog" where
  "ret x s = Inr (x, s)"

definition pbind :: "('s, 'a) prog \<Rightarrow> ('a \<Rightarrow> ('s, 'b) prog) \<Rightarrow> ('s, 'b) prog" where
  "pbind p f s = (case p s of Inl e \<Rightarrow> Inl e | Inr (x, s') \<Rightarrow> f x s')"

definition pseq :: "('s, unit) prog \<Rightarrow> ('s, 'b) prog \<Rightarrow> ('s, 'b) prog" where
  "pseq p q = pbind p (\<lambda>_. q)"

definition lift :: "py_error + 'a \<Rightarrow> ('s, 'a) prog" where
  "lift r s = (case r of Inl e \<Rightarrow> Inl e | Inr x \<Rightarrow> Inr (x, s))"

definition read :: "string \<Rightarrow> ('s \<Rightarrow> 'a option) \<Rightarrow> ('s, 'a) prog" where
  "read name var s = (case var s of None \<Rightarrow> Inl (NameError name) | Some v \<Rightarrow> Inr (v, s))"

definition modify :: "('s \<Rightarrow> 's) \<Rightarrow> ('s, unit) prog" where
  "modify f s = Inr ((), f s)"

text \<open>A \<open>for\<close> loop over a list, and a list comprehension.\<close>

fun for_each :: "'a list \<Rightarrow> ('a \<Rightarrow> ('s, unit) prog) \<Rightarrow> ('s, unit) prog" where
  "for_each [] body = ret ()"
| "for_each (x # xs) body = pseq (body x) (for_each xs body)"

fun collect :: "'a list \<Rightarrow> ('a \<Rightarrow> ('s, 'b) prog) \<Rightarrow> ('s, 'b list) prog" where
  "collect [] f = ret []"
| "collect (x # xs) f = pbind (f x) (\<lambda>y. pbind (collect xs f) (\<lambda>ys. ret (y # ys)))"

text \<open>Indexing a list with a Python integer: a negative index counts from the end.\<close>

definition py_index :: "'a list \<Rightarrow> int \<Rightarrow> py_error + 'a" where
  "py_index xs i =
     (let n = int (length xs); k = (if i < 0 then n + i else i)
      in if 0 \<le> k \<and> k < n then Inr (xs ! nat k) else Inl IndexError)"

text \<open>The part of the namespace that both notebooks have: the modules imported so far,
  and the events so far.\<close>

record namespace =
  imported :: "string list"
  events :: "event list"

definition emit :: "event \<Rightarrow> ('z namespace_scheme, unit) prog" where
  "emit e = modify (\<lambda>s. s\<lparr>events := events s @ [e]\<rparr>)"

definition import_module :: "string \<Rightarrow> ('z namespace_scheme, unit) prog" where
  "import_module name =
     pseq (modify (\<lambda>s. s\<lparr>imported := imported s @ [name]\<rparr>)) (emit (Import name))"

definition from_module :: "string \<Rightarrow> ('z namespace_scheme, unit) prog" where
  "from_module name s =
     (if name \<in> set (imported s) then Inr ((), s) else Inl (NameError name))"

definition assign :: "string \<Rightarrow> ('z namespace_scheme \<Rightarrow> 'z namespace_scheme) \<Rightarrow> ('z namespace_scheme, unit) prog" where
  "assign name upd = pseq (modify upd) (emit (Assign name))"

text \<open>Running the cells of a notebook in order, from a namespace.\<close>

fun run_cells :: "('s, unit) prog list \<Rightarrow> 's \<Rightarrow> py_error + 's" where
  "run_cells [] s = Inr s"
| "run_cells (c # cs) s = (case c s of Inl e \<Rightarrow> Inl e | Inr (_, s') \<Rightarrow> run_cells cs s')"


text \<open>A sequence of statements.\<close>

fun block :: "('s, unit) prog list \<Rightarrow> ('s, unit) prog" where
  "block [] = ret ()"
| "block (p # ps) = pseq p (block ps)"

section \<open>The notebook \<open>docs/examples/ex_2d.ipynb\<close>\<close>

text \<open>
  The functions of the library that the cells after the first call, as parameters.
  \<open>eigh(H, k=1)\<close> is modelled by \<open>eigh\<close> returning the one eigenvalue of the array
  \<open>ge\<close> and the eigenvector, for whatever value \<open>H\<close> is bound to;
  \<open>correlation(None, A, B, sysa, sysb, dims=..., precomp_func=True)\<close> returns a function of
  the state.
\<close>

record 'q observables =
  eigh :: "'q pyval \<Rightarrow> real \<times> 'q"
  expec :: "'q \<Rightarrow> 'q \<Rightarrow> real"
  partial_trace :: "'q \<Rightarrow> int list list \<Rightarrow> site list \<Rightarrow> 'q"
  purify :: "'q \<Rightarrow> 'q"
  mutinf :: "'q \<Rightarrow> real"
  correlation :: "'q \<Rightarrow> 'q \<Rightarrow> int \<Rightarrow> int \<Rightarrow> int list \<Rightarrow> 'q \<Rightarrow> real"

text \<open>The global names of the notebook; \<open>None\<close> is a name not bound yet.\<close>

record 'q nb2d = namespace +
  has_ham_heis_2D :: bool
  v_n :: "int option"
  v_m :: "int option"
  v_dims :: "int list list option"
  v_H :: "'q pyval option"
  v_ge :: "real list option"
  v_gs :: "'q option"
  v_Sz :: "'q option"
  v_Sz_ij :: "'q list list option"
  v_m_ij :: "real list list option"
  v_target :: "site option"
  v_rho_ab_ij :: "'q list list option"
  v_mi_ij :: "real list list option"
  v_Sy :: "'q option"
  v_z_corr :: "('q \<Rightarrow> real) option"
  v_cy_ij :: "real list list option"

definition fresh_2d :: "'q nb2d" where
  "fresh_2d = \<lparr>imported = [], events = [], has_ham_heis_2D = False,
     v_n = None, v_m = None, v_dims = None, v_H = None, v_ge = None, v_gs = None,
     v_Sz = None, v_Sz_ij = None, v_m_ij = None, v_target = None, v_rho_ab_ij = None,
     v_mi_ij = None, v_Sy = None, v_z_corr = None, v_cy_ij = None\<rparr>"

text \<open>Cell 1: the imports and \<open>def ham_heis_2D\<close>.\<close>

definition cell1 :: "('q nb2d, unit) prog" where
  "cell1 = block
     [import_module ''itertools'', import_module ''operator'', import_module ''numpy'',
      import_module ''quimb'',
      assign ''ham_heis_2D'' (\<lambda>s. s\<lparr>has_ham_heis_2D := True\<rparr>)]"

text \<open>Cell 2: \<open>n, m = 4, 5\<close>; \<open>dims = [[2] * m] * n\<close>; \<open>for row in dims: print(row)\<close>.\<close>

definition cell2 :: "('q nb2d, unit) prog" where
  "cell2 = block
     [assign ''n'' (\<lambda>s. s\<lparr>v_n := Some 4\<rparr>),
      assign ''m'' (\<lambda>s. s\<lparr>v_m := Some 5\<rparr>),
      pbind (read ''m'' v_m) (\<lambda>m. pbind (read ''n'' v_n) (\<lambda>n.
        assign ''dims'' (\<lambda>s. s\<lparr>v_dims := Some (dims_of n m)\<rparr>))),
      pbind (read ''dims'' v_dims) (\<lambda>dims. for_each dims (\<lambda>row. emit (PrintRow row)))]"

text \<open>Cell 3: \<open>H = ham_heis_2D(n, m, cyclic=False)\<close>, with the defaults \<open>j=1.0\<close>,
  \<open>bz=0.0\<close>, \<open>sparse=True\<close>. The body of the function looks up \<open>itertools\<close> and the
  names of the library.\<close>

definition call_ham_heis_2D ::
  "'q::plus quimb \<Rightarrow> int \<Rightarrow> int \<Rightarrow> real \<Rightarrow> real \<Rightarrow> bool \<Rightarrow> bool \<Rightarrow> ('q nb2d, 'q pyval) prog" where
  "call_ham_heis_2D L n m j bz cyclic sparse =
     pseq (from_module ''itertools'') (pseq (from_module ''quimb'')
       (lift (ham_heis_2D L n m j bz cyclic sparse)))"

definition cell3 :: "'q::plus quimb \<Rightarrow> ('q nb2d, unit) prog" where
  "cell3 L =
     pbind (\<lambda>s. if has_ham_heis_2D s then Inr ((), s) else Inl (NameError ''ham_heis_2D'')) (\<lambda>_.
     pbind (read ''n'' v_n) (\<lambda>n. pbind (read ''m'' v_m) (\<lambda>m.
     pbind (call_ham_heis_2D L n m 1 0 False True) (\<lambda>H.
       assign ''H'' (\<lambda>s. s\<lparr>v_H := Some H\<rparr>)))))"

text \<open>Cell 4: \<open>H = H + 0.2 * ikron(spin_operator('Z', sparse=True), dims, [(1, 2)])\<close>;
  the sum is a matrix whether \<open>H\<close> is a matrix or the integer \<open>0\<close>.\<close>

definition cell4 :: "'q::plus quimb \<Rightarrow> ('q nb2d, unit) prog" where
  "cell4 L =
     pbind (read ''H'' v_H) (\<lambda>H. pseq (from_module ''quimb'')
     (pbind (read ''dims'' v_dims) (\<lambda>dims.
       assign ''H'' (\<lambda>s. s\<lparr>v_H :=
         Some (py_add H (smul L 0.2 (ikron L (spin_operator L CHR ''Z'') dims [(1, 2)])))\<rparr>))))"

text \<open>Cell 5: \<open>ge, gs = eigh(H, k=1)\<close>\<close>

definition cell5 :: "'q observables \<Rightarrow> ('q nb2d, unit) prog" where
  "cell5 ob =
     pseq (from_module ''quimb'') (pbind (read ''H'' v_H) (\<lambda>H.
       case eigh ob H of (e, v) \<Rightarrow>
         block [assign ''ge'' (\<lambda>s. s\<lparr>v_ge := Some [e]\<rparr>),
                assign ''gs'' (\<lambda>s. s\<lparr>v_gs := Some v\<rparr>)]))"

text \<open>Cell 6: \<open>ge[0]\<close>, displayed.\<close>

definition cell6 :: "('q nb2d, unit) prog" where
  "cell6 = pbind (read ''ge'' v_ge) (\<lambda>ge. pbind (lift (py_index ge 0)) (\<lambda>_.
     emit (Show ''ge[0]'')))"

text \<open>Cell 7: \<open>Sz = spin_operator('Z', stype='coo')\<close> and
  \<open>Sz_ij = [[ikron(Sz, dims, [(i, j)]) for j in range(m)] for i in range(n)]\<close>\<close>

definition cell7 :: "'q quimb \<Rightarrow> ('q nb2d, unit) prog" where
  "cell7 L = block
     [pseq (from_module ''quimb'') (assign ''Sz'' (\<lambda>s. s\<lparr>v_Sz := Some (spin_operator L CHR ''Z'')\<rparr>)),
      pbind (read ''n'' v_n) (\<lambda>n.
        pbind (collect (py_range n) (\<lambda>i. pbind (read ''m'' v_m) (\<lambda>m.
          collect (py_range m) (\<lambda>j. pseq (from_module ''quimb'')
            (pbind (read ''Sz'' v_Sz) (\<lambda>Sz. pbind (read ''dims'' v_dims) (\<lambda>dims.
              ret (ikron L Sz dims [(i, j)]))))))))
        (\<lambda>g. assign ''Sz_ij'' (\<lambda>s. s\<lparr>v_Sz_ij := Some g\<rparr>)))]"

text \<open>Cell 8: \<open>m_ij = [[expec(Sz_ij[i][j], gs) for j in range(m)] for i in range(n)]\<close>,
  then \<open>import matplotlib.pyplot as plt\<close>, \<open>plt.imshow(m_ij)\<close>, \<open>plt.colorbar()\<close>.\<close>

definition plot :: "string \<Rightarrow> ('q nb2d \<Rightarrow> real list list option) \<Rightarrow> ('q nb2d, unit) prog" where
  "plot name var = block
     [pseq (from_module ''matplotlib.pyplot'') (pbind (read name var) (\<lambda>_.
        emit (Show (''plt.imshow('' @ name @ '')'')))),
      pseq (from_module ''matplotlib.pyplot'') (emit (Show ''plt.colorbar()''))]"

definition cell8 :: "'q observables \<Rightarrow> ('q nb2d, unit) prog" where
  "cell8 ob = block
     [pbind (read ''n'' v_n) (\<lambda>n.
        pbind (collect (py_range n) (\<lambda>i. pbind (read ''m'' v_m) (\<lambda>m.
          collect (py_range m) (\<lambda>j. pseq (from_module ''quimb'')
            (pbind (read ''Sz_ij'' v_Sz_ij) (\<lambda>g. pbind (lift (py_index g i)) (\<lambda>row.
             pbind (lift (py_index row j)) (\<lambda>A. pbind (read ''gs'' v_gs) (\<lambda>gs.
              ret (expec ob A gs))))))))))
        (\<lambda>g. assign ''m_ij'' (\<lambda>s. s\<lparr>v_m_ij := Some g\<rparr>))),
      import_module ''matplotlib.pyplot'',
      plot ''m_ij'' v_m_ij]"

text \<open>Cell 9: \<open>target = (1, 2)\<close> and
  \<open>rho_ab_ij = [[partial_trace(gs, dims=dims, keep=[target, (i, j)]) for j in range(m)] for i in range(n)]\<close>\<close>

definition cell9 :: "'q observables \<Rightarrow> ('q nb2d, unit) prog" where
  "cell9 ob = block
     [assign ''target'' (\<lambda>s. s\<lparr>v_target := Some (1, 2)\<rparr>),
      pbind (read ''n'' v_n) (\<lambda>n.
        pbind (collect (py_range n) (\<lambda>i. pbind (read ''m'' v_m) (\<lambda>m.
          collect (py_range m) (\<lambda>j. pseq (from_module ''quimb'')
            (pbind (read ''gs'' v_gs) (\<lambda>gs. pbind (read ''dims'' v_dims) (\<lambda>dims.
             pbind (read ''target'' v_target) (\<lambda>t.
              ret (partial_trace ob gs dims [t, (i, j)])))))))))
        (\<lambda>g. assign ''rho_ab_ij'' (\<lambda>s. s\<lparr>v_rho_ab_ij := Some g\<rparr>)))]"

text \<open>The expression \<open>rho_ab_ij[i][j] if (i, j) != target else purify(rho_ab_ij[i][j])\<close>
  of cells 10 and 12.\<close>

definition rho_at :: "int \<Rightarrow> int \<Rightarrow> ('q nb2d, 'q) prog" where
  "rho_at i j = pbind (read ''rho_ab_ij'' v_rho_ab_ij) (\<lambda>g. pbind (lift (py_index g i)) (\<lambda>row.
     lift (py_index row j)))"

definition rho_or_purified :: "'q observables \<Rightarrow> int \<Rightarrow> int \<Rightarrow> ('q nb2d, 'q) prog" where
  "rho_or_purified ob i j = pbind (read ''target'' v_target) (\<lambda>t.
     if (i, j) \<noteq> t then rho_at i j
     else pseq (from_module ''quimb'') (pbind (rho_at i j) (\<lambda>r. ret (purify ob r))))"

text \<open>Cell 10: \<open>mi_ij = [[mutinf(...) for j in range(m)] for i in range(n)]\<close> and its plot.\<close>

definition cell10 :: "'q observables \<Rightarrow> ('q nb2d, unit) prog" where
  "cell10 ob = block
     [pbind (read ''n'' v_n) (\<lambda>n.
        pbind (collect (py_range n) (\<lambda>i. pbind (read ''m'' v_m) (\<lambda>m.
          collect (py_range m) (\<lambda>j. pseq (from_module ''quimb'')
            (pbind (rho_or_purified ob i j) (\<lambda>r. ret (mutinf ob r)))))))
        (\<lambda>g. assign ''mi_ij'' (\<lambda>s. s\<lparr>v_mi_ij := Some g\<rparr>))),
      plot ''mi_ij'' v_mi_ij]"

text \<open>Cell 11: \<open>Sy = spin_operator('y')\<close> and
  \<open>z_corr = correlation(None, Sy, Sy, 0, 1, dims=[2, 2], precomp_func=True)\<close>\<close>

definition cell11 :: "'q quimb \<Rightarrow> 'q observables \<Rightarrow> ('q nb2d, unit) prog" where
  "cell11 L ob = block
     [pseq (from_module ''quimb'') (assign ''Sy'' (\<lambda>s. s\<lparr>v_Sy := Some (spin_operator L CHR ''y'')\<rparr>)),
      pseq (from_module ''quimb'') (pbind (read ''Sy'' v_Sy) (\<lambda>A. pbind (read ''Sy'' v_Sy) (\<lambda>B.
        assign ''z_corr'' (\<lambda>s. s\<lparr>v_z_corr := Some (correlation ob A B 0 1 [2, 2])\<rparr>))))]"

text \<open>Cell 12: \<open>cy_ij = [[z_corr(...) for j in range(m)] for i in range(n)]\<close> and its plot.\<close>

definition cell12 :: "'q observables \<Rightarrow> ('q nb2d, unit) prog" where
  "cell12 ob = block
     [pbind (read ''n'' v_n) (\<lambda>n.
        pbind (collect (py_range n) (\<lambda>i. pbind (read ''m'' v_m) (\<lambda>m.
          collect (py_range m) (\<lambda>j. pbind (read ''z_corr'' v_z_corr) (\<lambda>f.
            pbind (rho_or_purified ob i j) (\<lambda>r. ret (f r)))))))
        (\<lambda>g. assign ''cy_ij'' (\<lambda>s. s\<lparr>v_cy_ij := Some g\<rparr>))),
      plot ''cy_ij'' v_cy_ij]"

definition ex_2d :: "'q::plus quimb \<Rightarrow> 'q observables \<Rightarrow> ('q nb2d, unit) prog list" where
  "ex_2d L ob =
     [cell1, cell2, cell3 L, cell4 L, cell5 ob, cell6, cell7 L, cell8 ob, cell9 ob,
      cell10 ob, cell11 L ob, cell12 ob]"


section \<open>The notebook \<open>docs/examples/ex_torch_optimize_pbc_mps.ipynb\<close>\<close>

text \<open>
  The functions of the two libraries that the notebook calls, as parameters: \<open>'q\<close> are
  dense operators and states, \<open>'tn\<close> tensor networks, \<open>'opt\<close> optimizers. The scalars that
  \<open>@\<close> returns are taken as real numbers with exact arithmetic. Methods that change an
  object in place return the changed object. The optimizer holds the tensors of
  \<open>mps\<close> themselves (\<open>[t.data for t in mps]\<close>), so \<open>zero_grad\<close>, \<open>backward\<close> and \<open>step\<close>
  act on the tensor network bound to \<open>mps\<close>.
\<close>

record ('q, 'tn, 'opt) torch_lib =
  ham_heis :: "int \<Rightarrow> bool \<Rightarrow> bool \<Rightarrow> 'q"
  groundstate :: "'q \<Rightarrow> 'q"
  Dense1D :: "'q \<Rightarrow> 'tn"
  to_torch :: "'tn \<Rightarrow> 'tn"
  MPS_rand_state :: "int \<Rightarrow> int \<Rightarrow> bool \<Rightarrow> 'tn"
  to_torch_grad :: "'tn \<Rightarrow> 'tn"
  Adam :: "'tn \<Rightarrow> real \<Rightarrow> 'opt"
  matmul :: "'tn \<Rightarrow> 'tn \<Rightarrow> real"
  zero_grad :: "'opt \<Rightarrow> 'tn \<Rightarrow> 'tn"
  backward :: "('tn \<Rightarrow> real) \<Rightarrow> 'tn \<Rightarrow> 'tn"
  step :: "'opt \<Rightarrow> 'tn \<Rightarrow> 'opt \<times> 'tn"
  divide_by :: "'tn \<Rightarrow> real \<Rightarrow> 'tn"
  to_numpy :: "'tn \<Rightarrow> 'tn"

text \<open>The global names; \<open>loss\<close> is a scalar with the function of the tensors of \<open>mps\<close>
  that computed it, which \<open>backward\<close> differentiates.\<close>

record ('q, 'tn, 'opt) nbtorch = namespace +
  t_L :: "int option"
  t_H :: "'q option"
  t_gs :: "'q option"
  t_target :: "'tn option"
  t_bond_dim :: "int option"
  t_mps :: "'tn option"
  t_optimizer :: "'opt option"
  t_t :: "int option"
  t_loss :: "(real \<times> ('tn \<Rightarrow> real)) option"

definition fresh_torch :: "('q, 'tn, 'opt) nbtorch" where
  "fresh_torch = \<lparr>imported = [], events = [], t_L = None, t_H = None, t_gs = None,
     t_target = None, t_bond_dim = None, t_mps = None, t_optimizer = None, t_t = None,
     t_loss = None\<rparr>"

text \<open>Cell 1: \<open>import torch\<close>, \<open>import quimb as qu\<close>, \<open>import quimb.tensor as qtn\<close>,
  \<open>qtn.set_contract_backend('torch')\<close>\<close>

definition tcell1 :: "(('q, 'tn, 'opt) nbtorch, unit) prog" where
  "tcell1 = block
     [import_module ''torch'', import_module ''quimb'', import_module ''quimb.tensor'',
      pseq (from_module ''quimb.tensor'') (emit (Call ''qtn.set_contract_backend''))]"

text \<open>Cell 2: \<open>L = 16\<close>, \<open>H = qu.ham_heis(L, sparse=True, cyclic=True)\<close>,
  \<open>gs = qu.groundstate(H)\<close>\<close>

definition tcell2 :: "('q, 'tn, 'opt) torch_lib \<Rightarrow> (('q, 'tn, 'opt) nbtorch, unit) prog" where
  "tcell2 T = block
     [assign ''L'' (\<lambda>s. s\<lparr>t_L := Some 16\<rparr>),
      pseq (from_module ''quimb'') (pbind (read ''L'' t_L) (\<lambda>L.
        assign ''H'' (\<lambda>s. s\<lparr>t_H := Some (ham_heis T L True True)\<rparr>))),
      pseq (from_module ''quimb'') (pbind (read ''H'' t_H) (\<lambda>H.
        assign ''gs'' (\<lambda>s. s\<lparr>t_gs := Some (groundstate T H)\<rparr>)))]"

text \<open>Cell 3: \<open>target = qtn.Dense1D(gs)\<close>, \<open>target.apply_to_arrays(torch.tensor)\<close>\<close>

definition tcell3 :: "('q, 'tn, 'opt) torch_lib \<Rightarrow> (('q, 'tn, 'opt) nbtorch, unit) prog" where
  "tcell3 T = block
     [pseq (from_module ''quimb.tensor'') (pbind (read ''gs'' t_gs) (\<lambda>gs.
        assign ''target'' (\<lambda>s. s\<lparr>t_target := Some (Dense1D T gs)\<rparr>))),
      pbind (read ''target'' t_target) (\<lambda>tg. pseq (from_module ''torch'')
        (block [modify (\<lambda>s. s\<lparr>t_target := Some (to_torch T tg)\<rparr>),
                emit (Call ''target.apply_to_arrays'')]))]"

text \<open>Cell 4: \<open>bond_dim = 32\<close>, \<open>mps = qtn.MPS_rand_state(L, bond_dim, cyclic=True)\<close>,
  \<open>mps.apply_to_arrays(lambda t: torch.tensor(t, requires_grad=True))\<close>\<close>

definition tcell4 :: "('q, 'tn, 'opt) torch_lib \<Rightarrow> (('q, 'tn, 'opt) nbtorch, unit) prog" where
  "tcell4 T = block
     [assign ''bond_dim'' (\<lambda>s. s\<lparr>t_bond_dim := Some 32\<rparr>),
      pseq (from_module ''quimb.tensor'') (pbind (read ''L'' t_L) (\<lambda>L.
        pbind (read ''bond_dim'' t_bond_dim) (\<lambda>b.
          assign ''mps'' (\<lambda>s. s\<lparr>t_mps := Some (MPS_rand_state T L b True)\<rparr>)))),
      pbind (read ''mps'' t_mps) (\<lambda>mps. pseq (from_module ''torch'')
        (block [modify (\<lambda>s. s\<lparr>t_mps := Some (to_torch_grad T mps)\<rparr>),
                emit (Call ''mps.apply_to_arrays'')]))]"

text \<open>\<open>range(a, b)\<close>\<close>

definition py_range2 :: "int \<Rightarrow> int \<Rightarrow> int list" where
  "py_range2 a b = [a..b - 1]"

text \<open>The body of the loop of cell 5, for one \<open>t\<close>:
  \<^verbatim>\<open>loss = - (mps @ target)**2 / (mps @ mps)\<close>,
  \<open>optimizer.zero_grad()\<close>, \<open>loss.backward()\<close>, \<open>optimizer.step()\<close>, and
  \<open>print(f"round: {t}, loss: {loss.item()}")\<close> if \<open>t % 10 == 0\<close>.\<close>

definition loop_body ::
  "('q, 'tn, 'opt) torch_lib \<Rightarrow> int \<Rightarrow> (('q, 'tn, 'opt) nbtorch, unit) prog" where
  "loop_body T t = block
     [assign ''t'' (\<lambda>s. s\<lparr>t_t := Some t\<rparr>),
      pbind (read ''mps'' t_mps) (\<lambda>a. pbind (read ''target'' t_target) (\<lambda>tg.
        pbind (read ''mps'' t_mps) (\<lambda>b. pbind (read ''mps'' t_mps) (\<lambda>c.
          assign ''loss'' (\<lambda>s. s\<lparr>t_loss :=
            Some (- (matmul T a tg)\<^sup>2 / matmul T b c,
                  \<lambda>x. - (matmul T x tg)\<^sup>2 / matmul T x x)\<rparr>))))),
      pbind (read ''optimizer'' t_optimizer) (\<lambda>opt. pbind (read ''mps'' t_mps) (\<lambda>mps.
        block [modify (\<lambda>s. s\<lparr>t_mps := Some (zero_grad T opt mps)\<rparr>),
               emit (Call ''optimizer.zero_grad'')])),
      pbind (read ''loss'' t_loss) (\<lambda>loss. pbind (read ''mps'' t_mps) (\<lambda>mps.
        block [modify (\<lambda>s. s\<lparr>t_mps := Some (backward T (snd loss) mps)\<rparr>),
               emit (Call ''loss.backward'')])),
      pbind (read ''optimizer'' t_optimizer) (\<lambda>opt. pbind (read ''mps'' t_mps) (\<lambda>mps.
        case step T opt mps of (opt', mps') \<Rightarrow>
          block [modify (\<lambda>s. s\<lparr>t_optimizer := Some opt', t_mps := Some mps'\<rparr>),
                 emit (Call ''optimizer.step'')])),
      pbind (read ''t'' t_t) (\<lambda>t.
        if t mod 10 = 0
        then pbind (read ''t'' t_t) (\<lambda>t. pbind (read ''loss'' t_loss) (\<lambda>loss.
               emit (PrintRound t (fst loss))))
        else ret ())]"

text \<open>Cell 5: \<open>optimizer = torch.optim.Adam([t.data for t in mps], lr=0.01)\<close> and the loop
  \<open>for t in range(1, 101)\<close>.\<close>

definition tcell5 :: "('q, 'tn, 'opt) torch_lib \<Rightarrow> (('q, 'tn, 'opt) nbtorch, unit) prog" where
  "tcell5 T = block
     [pseq (from_module ''torch'') (pbind (read ''mps'' t_mps) (\<lambda>mps.
        assign ''optimizer'' (\<lambda>s. s\<lparr>t_optimizer := Some (Adam T mps 0.01)\<rparr>))),
      for_each (py_range2 1 101) (loop_body T)]"

text \<open>Cell 6: \<open>mps /= (mps @ mps)**0.5\<close>, then \<open>mps @ mps\<close>, displayed.\<close>

definition tcell6 :: "('q, 'tn, 'opt) torch_lib \<Rightarrow> (('q, 'tn, 'opt) nbtorch, unit) prog" where
  "tcell6 T = block
     [pbind (read ''mps'' t_mps) (\<lambda>mps. pbind (read ''mps'' t_mps) (\<lambda>a.
        pbind (read ''mps'' t_mps) (\<lambda>b.
          assign ''mps'' (\<lambda>s. s\<lparr>t_mps := Some (divide_by T mps (sqrt (matmul T a b)))\<rparr>)))),
      pbind (read ''mps'' t_mps) (\<lambda>a. pbind (read ''mps'' t_mps) (\<lambda>b.
        emit (Show ''mps @ mps'')))]"

text \<open>Cell 7: \<open>(mps @ target)**2\<close>, displayed.\<close>

definition tcell7 :: "(('q, 'tn, 'opt) nbtorch, unit) prog" where
  "tcell7 = pbind (read ''mps'' t_mps) (\<lambda>a. pbind (read ''target'' t_target) (\<lambda>b.
     emit (Show ''(mps @ target)**2'')))"

text \<open>Cell 8: \<open>mps.apply_to_arrays(lambda t: t.detach().numpy())\<close>\<close>

definition tcell8 :: "('q, 'tn, 'opt) torch_lib \<Rightarrow> (('q, 'tn, 'opt) nbtorch, unit) prog" where
  "tcell8 T = pbind (read ''mps'' t_mps) (\<lambda>mps.
     block [modify (\<lambda>s. s\<lparr>t_mps := Some (to_numpy T mps)\<rparr>),
            emit (Call ''mps.apply_to_arrays'')])"

text \<open>Cell 9: \<open>type(mps[4].data)\<close>, displayed.\<close>

definition tcell9 :: "(('q, 'tn, 'opt) nbtorch, unit) prog" where
  "tcell9 = pbind (read ''mps'' t_mps) (\<lambda>mps. emit (Show ''type(mps[4].data)''))"

definition ex_torch ::
  "('q, 'tn, 'opt) torch_lib \<Rightarrow> (('q, 'tn, 'opt) nbtorch, unit) prog list" where
  "ex_torch T = [tcell1, tcell2 T, tcell3 T, tcell4 T, tcell5 T, tcell6 T, tcell7, tcell8 T, tcell9]"

section \<open>The lattice as the specification describes it\<close>

text \<open>The sites of the \<open>n\<close>-by-\<open>m\<close> lattice.\<close>

definition lattice :: "int \<Rightarrow> int \<Rightarrow> site set" where
  "lattice n m = {0..<n} \<times> {0..<m}"

text \<open>The bonds from a site to the site above it, inside the lattice.\<close>

definition up_bonds :: "int \<Rightarrow> int \<Rightarrow> bond set" where
  "up_bonds n m = (\<lambda>(i, j). ((i, j), (i + 1, j))) ` ({0..<n - 1} \<times> {0..<m})"

text \<open>The bonds from a site to the site on its right, inside the lattice.\<close>

definition right_bonds :: "int \<Rightarrow> int \<Rightarrow> bond set" where
  "right_bonds n m = (\<lambda>(i, j). ((i, j), (i, j + 1))) ` ({0..<n} \<times> {0..<m - 1})"

text \<open>The nearest-neighbour pairs of sites of the lattice, each listed once, from a
  site to its neighbour above or on the right.\<close>

definition nn_bonds :: "int \<Rightarrow> int \<Rightarrow> bond set" where
  "nn_bonds n m =
     {(a, b). a \<in> lattice n m \<and> b \<in> lattice n m \<and>
              (b = (fst a + 1, snd a) \<or> b = (fst a, snd a + 1))}"

text \<open>Two coordinates are vertically or horizontally adjacent: they differ by one in
  exactly one component.\<close>

definition adjacent :: "site \<Rightarrow> site \<Rightarrow> bool" where
  "adjacent a b \<longleftrightarrow> \<bar>fst a - fst b\<bar> + \<bar>snd a - snd b\<bar> = 1"

text \<open>The wraparound bonds: from the last row back to the first in a column, and from
  the last column back to the first in a row.\<close>

definition is_wraparound :: "int \<Rightarrow> int \<Rightarrow> bond \<Rightarrow> bool" where
  "is_wraparound n m p =
     (case p of ((i, j), (k, l)) \<Rightarrow>
        (i = n - 1 \<and> k = 0 \<and> l = j \<and> 0 \<le> j \<and> j < m) \<or>
        (j = m - 1 \<and> l = 0 \<and> k = i \<and> 0 \<le> i \<and> i < n))"

text \<open>The sum that the specification describes: over every nearest-neighbour pair and
  every direction the two-site term, plus the field term of every site if \<open>bz \<noteq> 0\<close>.\<close>

definition heisenberg_sum :: "'q::comm_monoid_add quimb \<Rightarrow> int \<Rightarrow> int \<Rightarrow> real \<Rightarrow> real \<Rightarrow> 'q" where
  "heisenberg_sum L n m j bz =
     (\<Sum>b\<in>nn_bonds n m. \<Sum>s\<in>{CHR ''x'', CHR ''y'', CHR ''z''}.
        ikron L (smul L j (spin_operator L s)) (replicate (nat n) (replicate (nat m) 2))
          [fst b, snd b]) +
     (if bz \<noteq> 0
      then \<Sum>site\<in>lattice n m.
        ikron L (smul L bz (spin_operator L CHR ''z'')) (replicate (nat n) (replicate (nat m) 2))
          [site]
      else 0)"

section \<open>The notebooks as the specification describes them\<close>

text \<open>The \<open>n\<close>-by-\<open>m\<close> grid, a list of rows, whose entry at \<open>(i, j)\<close> is \<open>f i j\<close>.\<close>

definition site_grid :: "int \<Rightarrow> int \<Rightarrow> (int \<Rightarrow> int \<Rightarrow> 'a) \<Rightarrow> 'a list list" where
  "site_grid n m f = map (\<lambda>i. map (\<lambda>j. f i j) (py_range m)) (py_range n)"

text \<open>The entry \<open>g[i][j]\<close> of a list of rows.\<close>

definition index2 :: "'a list list \<Rightarrow> int \<Rightarrow> int \<Rightarrow> py_error + 'a" where
  "index2 g i j = (case py_index g i of Inl e \<Rightarrow> Inl e | Inr row \<Rightarrow> py_index row j)"

text \<open>The expectation in the state \<open>gs\<close> of the Z spin operator embedded at the single site
  \<open>(i, j)\<close>.\<close>

definition magnetization ::
  "'q quimb \<Rightarrow> 'q observables \<Rightarrow> int list list \<Rightarrow> 'q \<Rightarrow> int \<Rightarrow> int \<Rightarrow> real" where
  "magnetization L ob dims gs i j = expec ob (ikron L (spin_operator L CHR ''Z'') dims [(i, j)]) gs"

text \<open>The Hamiltonian that cells 3 and 4 build for the solver: the matrix that
  \<open>ham_heis_2D(4, 5, cyclic=False)\<close> returns from the sum of its terms, plus the field on
  the site \<open>(1, 2)\<close>.\<close>

definition built_H :: "'q::monoid_add quimb \<Rightarrow> 'q pyval" where
  "built_H L = Matrix (finish_matrix L True (sum_list (all_terms L 4 5 1 0 False)) +
     smul L 0.2 (ikron L (spin_operator L CHR ''Z'') (dims_of 4 5) [(1, 2)]))"

text \<open>The events of the notebook in their order, cell by cell.\<close>

text \<open>The reduced state of the target site \<open>(1, 2)\<close> and the site \<open>(i, j)\<close>, and the state
  that cells 10 and 12 pass on: the reduced state, purified when \<open>(i, j)\<close> is the target.\<close>

definition rho_ab :: "'q observables \<Rightarrow> int list list \<Rightarrow> 'q \<Rightarrow> int \<Rightarrow> int \<Rightarrow> 'q" where
  "rho_ab ob dims gs i j = partial_trace ob gs dims [(1, 2), (i, j)]"

definition rho_ab_purified :: "'q observables \<Rightarrow> int list list \<Rightarrow> 'q \<Rightarrow> int \<Rightarrow> int \<Rightarrow> 'q" where
  "rho_ab_purified ob dims gs i j =
     (if (i, j) \<noteq> (1, 2) then rho_ab ob dims gs i j else purify ob (rho_ab ob dims gs i j))"

definition ex_2d_events :: "event list" where
  "ex_2d_events =
     [Import ''itertools'', Import ''operator'', Import ''numpy'', Import ''quimb'',
      Assign ''ham_heis_2D'',
      Assign ''n'', Assign ''m'', Assign ''dims'',
      PrintRow [2, 2, 2, 2, 2], PrintRow [2, 2, 2, 2, 2], PrintRow [2, 2, 2, 2, 2],
      PrintRow [2, 2, 2, 2, 2],
      Assign ''H'',
      Assign ''H'',
      Assign ''ge'', Assign ''gs'',
      Show ''ge[0]'',
      Assign ''Sz'', Assign ''Sz_ij'',
      Assign ''m_ij'', Import ''matplotlib.pyplot'', Show ''plt.imshow(m_ij)'',
      Show ''plt.colorbar()'',
      Assign ''target'', Assign ''rho_ab_ij'',
      Assign ''mi_ij'', Show ''plt.imshow(mi_ij)'', Show ''plt.colorbar()'',
      Assign ''Sy'', Assign ''z_corr'',
      Assign ''cy_ij'', Show ''plt.imshow(cy_ij)'', Show ''plt.colorbar()'']"

text \<open>The negated normalized squared overlap with the target,
  \<^verbatim>\<open>-(<x|target>)^2 / <x|x>\<close>, with no conjugation of \<open>x\<close> or \<open>target\<close>.\<close>

definition overlap_loss :: "('q, 'tn, 'opt) torch_lib \<Rightarrow> 'tn \<Rightarrow> 'tn \<Rightarrow> real" where
  "overlap_loss T target x = - (matmul T x target)\<^sup>2 / matmul T x x"

text \<open>One optimization step on the optimizer and the tensors: \<open>zero_grad\<close>, then \<open>backward\<close> of
  the loss, then \<open>step\<close>.\<close>

definition opt_round :: "('q, 'tn, 'opt) torch_lib \<Rightarrow> 'tn \<Rightarrow> 'opt \<times> 'tn \<Rightarrow> 'opt \<times> 'tn" where
  "opt_round T target om =
     step T (fst om) (backward T (overlap_loss T target) (zero_grad T (fst om) (snd om)))"

text \<open>The events of round \<open>t\<close> of the loop, with the loss \<open>v\<close> computed in it.\<close>

definition round_events :: "int \<Rightarrow> real \<Rightarrow> event list" where
  "round_events t v =
     [Assign ''t'', Assign ''loss'', Call ''optimizer.zero_grad'', Call ''loss.backward'',
      Call ''optimizer.step''] @ (if t mod 10 = 0 then [PrintRound t v] else [])"

text \<open>The events of \<open>d\<close> rounds, numbered from \<open>a\<close>, starting with the optimizer and tensors
  \<open>om\<close>.\<close>

definition loop_events ::
  "('q, 'tn, 'opt) torch_lib \<Rightarrow> 'tn \<Rightarrow> 'opt \<times> 'tn \<Rightarrow> int \<Rightarrow> nat \<Rightarrow> event list" where
  "loop_events T target om a d =
     concat (map (\<lambda>i. round_events (a + int i)
       (overlap_loss T target (snd ((opt_round T target ^^ i) om)))) [0..<d])"

text \<open>The optimizer and the tensors with which the loop of the notebook starts.\<close>

definition ex_torch_start :: "('q, 'tn, 'opt) torch_lib \<Rightarrow> 'opt \<times> 'tn" where
  "ex_torch_start T =
     (let mps = to_torch_grad T (MPS_rand_state T 16 32 True) in (Adam T mps 0.01, mps))"

text \<open>The dense target state of the notebook.\<close>

definition ex_torch_target :: "('q, 'tn, 'opt) torch_lib \<Rightarrow> 'tn" where
  "ex_torch_target T = to_torch T (Dense1D T (groundstate T (ham_heis T 16 True True)))"

text \<open>The events of the notebook in their order, cell by cell.\<close>

definition ex_torch_events :: "('q, 'tn, 'opt) torch_lib \<Rightarrow> event list" where
  "ex_torch_events T =
     [Import ''torch'', Import ''quimb'', Import ''quimb.tensor'',
      Call ''qtn.set_contract_backend'',
      Assign ''L'', Assign ''H'', Assign ''gs'',
      Assign ''target'', Call ''target.apply_to_arrays'',
      Assign ''bond_dim'', Assign ''mps'', Call ''mps.apply_to_arrays'',
      Assign ''optimizer''] @
     loop_events T (ex_torch_target T) (ex_torch_start T) 1 100 @
     [Assign ''mps'', Show ''mps @ mps'',
      Show ''(mps @ target)**2'',
      Call ''mps.apply_to_arrays'',
      Show ''type(mps[4].data)'']"

text \<open>Output of a computed result: a displayed value, a plot, the loss printed in a round.\<close>

fun is_result_output :: "event \<Rightarrow> bool" where
  "is_result_output (Show what) = True"
| "is_result_output (PrintRound t v) = True"
| "is_result_output e = False"

text \<open>A step that computes: the binding of a name, a library call made for its effect.\<close>

fun is_computation :: "event \<Rightarrow> bool" where
  "is_computation (Assign name) = True"
| "is_computation (Call name) = True"
| "is_computation e = False"

text \<open>All output of results comes last: after the first output of a result, no step
  computes.\<close>

definition outputs_last :: "event list \<Rightarrow> bool" where
  "outputs_last evs = list_all (\<lambda>e. \<not> is_computation e) (dropWhile (\<lambda>e. \<not> is_result_output e) evs)"

text \<open>A library call made for its effect.\<close>

fun is_call :: "event \<Rightarrow> bool" where
  "is_call (Call name) = True"
| "is_call e = False"

text \<open>The calls of one round of the loop.\<close>

definition round_calls :: "event list" where
  "round_calls = [Call ''optimizer.zero_grad'', Call ''loss.backward'', Call ''optimizer.step'']"

section \<open>A model of the library: complex matrices and Kronecker placement\<close>

text \<open>
  Modelled from the spec: the library functions \<open>spin_operator\<close>, \<open>ikron\<close> and
  \<open>isreal\<close>, the attribute \<open>.real\<close> and the dense copy \<open>qarray(H.A)\<close> are called by
  the notebook but are not part of it. The specification describes \<open>ikron\<close> as the
  Kronecker (tensor) product placement of a local operator into a larger multi-site
  Hilbert space, and the operators as spin operators with directions \<open>x\<close>, \<open>y\<close>, \<open>z\<close>,
  those of direction \<open>y\<close> with imaginary entries. The model takes the spin-1/2 operators,
  matrices as their entries (zero outside their shape) with exact complex arithmetic,
  and places the operator at every site named in \<open>inds\<close> and the identity at every
  other site, in the row-major order of the sites.
\<close>

datatype cmat = CMat (entry: "nat \<Rightarrow> nat \<Rightarrow> complex")

instantiation cmat :: comm_monoid_add
begin

definition zero_cmat :: cmat where
  "zero_cmat = CMat (\<lambda>r c. 0)"

definition plus_cmat :: "cmat \<Rightarrow> cmat \<Rightarrow> cmat" where
  "plus_cmat A B = CMat (\<lambda>r c. entry A r c + entry B r c)"

instance
proof
  fix A B C :: cmat
  show "A + B + C = A + (B + C)"
    by (simp add: plus_cmat_def add.assoc)
  show "A + B = B + A"
    by (simp add: plus_cmat_def add.commute)
  show "0 + A = A"
    by (simp add: plus_cmat_def zero_cmat_def)
qed

end

definition eye :: "nat \<Rightarrow> cmat" where
  "eye d = CMat (\<lambda>r c. if r = c \<and> r < d then 1 else 0)"

definition cmat_scale :: "real \<Rightarrow> cmat \<Rightarrow> cmat" where
  "cmat_scale a A = CMat (\<lambda>r c. of_real a * entry A r c)"

text \<open>Modelled from the spec: \<open>spin_operator\<close>, which is not part of the notebooks; the
  spin-1/2 operators of the directions \<open>x\<close>, \<open>y\<close>, \<open>z\<close> (in either case), those of
  direction \<open>y\<close> with imaginary entries.\<close>

definition spin_half :: "char \<Rightarrow> cmat" where
  "spin_half s =
     (if s = CHR ''x'' \<or> s = CHR ''X'' then
        CMat (\<lambda>r c. if (r, c) = (0, 1) \<or> (r, c) = (1, 0) then 1 / 2 else 0)
      else if s = CHR ''y'' \<or> s = CHR ''Y'' then
        CMat (\<lambda>r c. if (r, c) = (0, 1) then - \<i> / 2 else if (r, c) = (1, 0) then \<i> / 2 else 0)
      else if s = CHR ''z'' \<or> s = CHR ''Z'' then
        CMat (\<lambda>r c. if (r, c) = (0, 0) then 1 / 2 else if (r, c) = (1, 1) then - 1 / 2 else 0)
      else 0)"

text \<open>Modelled from the spec: the Kronecker product behind \<open>ikron\<close>, which is not part of
  the notebooks; the entries of the product of a list of factors, each with the
  dimension of its site.\<close>

fun kron_entries :: "(nat \<times> cmat) list \<Rightarrow> nat \<Rightarrow> nat \<Rightarrow> complex" where
  "kron_entries [] r c = (if r = 0 \<and> c = 0 then 1 else 0)"
| "kron_entries ((d, A) # fs) r c =
     (let D = prod_list (map fst fs)
      in entry A (r div D) (c div D) * kron_entries fs (r mod D) (c mod D))"

text \<open>Modelled from the spec: the sites of \<open>dims\<close>, a list of rows, in row-major order, as
  \<open>ikron\<close> numbers them.\<close>

definition coords :: "int list list \<Rightarrow> site list" where
  "coords dims =
     (case dims of [] \<Rightarrow> []
      | row # _ \<Rightarrow> List.product (py_range (int (length dims))) (py_range (int (length row))))"

text \<open>Modelled from the spec: \<open>ikron\<close>, which is not part of the notebooks; the placement
  of a local operator at the sites \<open>inds\<close> of the multi-site space \<open>dims\<close>, the identity
  elsewhere.\<close>

definition ikron_place :: "cmat \<Rightarrow> int list list \<Rightarrow> site list \<Rightarrow> cmat" where
  "ikron_place A dims inds =
     CMat (kron_entries
       (map (\<lambda>s. let d = nat (dims ! nat (fst s) ! nat (snd s))
                 in (d, if s \<in> set inds then A else eye d))
            (coords dims)))"

text \<open>Modelled from the spec: \<open>isreal\<close>, which is not part of the notebooks; a matrix is
  real when no entry has an imaginary part.\<close>

definition real_entries :: "cmat \<Rightarrow> bool" where
  "real_entries A \<longleftrightarrow> (\<forall>r c. Im (entry A r c) = 0)"

text \<open>Modelled from the spec: the library as \<open>ham_heis_2D\<close> calls it, with \<open>.real\<close> the
  matrix of the real parts and \<open>qarray(H.A)\<close> the same matrix in dense storage.\<close>

definition qlib :: "cmat quimb" where
  "qlib = \<lparr>spin_operator = spin_half, smul = cmat_scale, ikron = ikron_place,
            isreal = real_entries,
            real_part = (\<lambda>A. CMat (\<lambda>r c. of_real (Re (entry A r c)))),
            to_dense = (\<lambda>A. A)\<rparr>"

definition imag_entries :: "cmat \<Rightarrow> bool" where
  "imag_entries A \<longleftrightarrow> (\<forall>r c. Re (entry A r c) = 0)"

text \<open>Instances of the library parameters and namespaces, for evaluating the notebooks at
  concrete inputs.\<close>

definition sample_ob :: "cmat observables" where
  "sample_ob = \<lparr>eigh = (\<lambda>H. (0, case H of IntZero \<Rightarrow> 0 | Matrix A \<Rightarrow> A)), expec = (\<lambda>A v. Re (entry A 0 0)),
     partial_trace = (\<lambda>v dims keep. v), purify = (\<lambda>v. v), mutinf = (\<lambda>v. 0),
     correlation = (\<lambda>A B i j dims v. 0)\<rparr>"

definition sample_torch :: "(real, real, nat) torch_lib" where
  "sample_torch = \<lparr>ham_heis = (\<lambda>L sparse cyclic. 1), groundstate = (\<lambda>H. H),
     Dense1D = (\<lambda>v. v), to_torch = (\<lambda>x. x), MPS_rand_state = (\<lambda>L b cyclic. 1),
     to_torch_grad = (\<lambda>x. x), Adam = (\<lambda>x lr. 0), matmul = (\<lambda>x y. x * y),
     zero_grad = (\<lambda>opt x. x), backward = (\<lambda>f x. x), step = (\<lambda>opt x. (Suc opt, x)),
     divide_by = (\<lambda>x r. x / r), to_numpy = (\<lambda>x. x)\<rparr>"

definition sample_2d :: "cmat nb2d" where
  "sample_2d = fresh_2d\<lparr>imported := [''quimb''], v_n := Some 2, v_m := Some 3,
     v_dims := Some (dims_of 2 3), v_gs := Some (eye 64)\<rparr>"

definition sample_torch_state :: "(real, real, nat) nbtorch" where
  "sample_torch_state = fresh_torch\<lparr>imported := [''torch''], t_mps := Some 2, t_target := Some 3,
     t_optimizer := Some 0\<rparr>"

text \<open>An instance of the library that counts the calls of \<open>ikron\<close>: every embedded term is
  \<open>1\<close>, and \<open>+\<close> adds.\<close>

definition ikron_count :: "nat quimb" where
  "ikron_count = \<lparr>spin_operator = (\<lambda>s. 0), smul = (\<lambda>a x. x), ikron = (\<lambda>A dims inds. 1),
     isreal = (\<lambda>H. False), real_part = (\<lambda>H. H), to_dense = (\<lambda>H. H)\<rparr>"

section \<open>Sites and bonds\<close>

lemma set_py_range: "set (py_range n) = {0..<n}"
  by (auto simp: py_range_def)

lemma distinct_py_range: "distinct (py_range n)"
  by (simp add: py_range_def)

lemma length_py_range: "length (py_range n) = nat n"
  by (simp add: py_range_def)

lemma set_sites: "set (sites n m) = lattice n m"
  by (simp add: sites_def lattice_def set_py_range)

lemma distinct_sites: "distinct (sites n m)"
  by (simp add: sites_def distinct_product distinct_py_range)

lemma length_sites: "length (sites n m) = nat n * nat m"
  by (simp add: sites_def length_py_range)

lemma above_mod: "0 \<le> i \<Longrightarrow> i < n \<Longrightarrow> (i + 1) mod n = (if i + 1 = n then 0 else i + 1)" for i n :: int
  by (auto simp: mod_pos_pos_trivial)

lemma pairs_at_open:
  assumes "(i, j) \<in> lattice n m"
  shows "pairs_at n m False (i, j) =
     (if i + 1 < n then [((i, j), (i + 1, j))] else []) @
     (if j + 1 < m then [((i, j), (i, j + 1))] else [])"
  using assms by (auto simp: pairs_at_def lattice_def above_mod Let_def)

lemma pairs_at_cyclic:
  assumes "(i, j) \<in> lattice n m"
  shows "pairs_at n m True (i, j) =
     [((i, j), (if i + 1 = n then 0 else i + 1, j)),
      ((i, j), (i, if j + 1 = m then 0 else j + 1))]"
  using assms by (auto simp: pairs_at_def lattice_def above_mod Let_def)

lemma set_gen_pairs: "set (gen_pairs n m c) = (\<Union>s\<in>lattice n m. set (pairs_at n m c s))"
  by (simp add: gen_pairs_def set_sites)

lemma up_bonds_iff:
  "((a, b), (c, d)) \<in> up_bonds n m \<longleftrightarrow> 0 \<le> a \<and> a + 1 < n \<and> 0 \<le> b \<and> b < m \<and> c = a + 1 \<and> d = b"
  by (auto simp: up_bonds_def image_iff)

lemma right_bonds_iff:
  "((a, b), (c, d)) \<in> right_bonds n m \<longleftrightarrow> 0 \<le> a \<and> a < n \<and> 0 \<le> b \<and> b + 1 < m \<and> c = a \<and> d = b + 1"
  by (auto simp: right_bonds_def image_iff)

lemma nn_bonds_iff:
  "((a, b), (c, d)) \<in> nn_bonds n m \<longleftrightarrow>
     0 \<le> a \<and> a < n \<and> 0 \<le> b \<and> b < m \<and> 0 \<le> c \<and> c < n \<and> 0 \<le> d \<and> d < m \<and>
     (c = a + 1 \<and> d = b \<or> c = a \<and> d = b + 1)"
  by (auto simp: nn_bonds_def lattice_def)

lemma nn_bonds_split: "nn_bonds n m = up_bonds n m \<union> right_bonds n m"
proof (intro set_eqI)
  fix p :: bond
  obtain a b c d where p: "p = ((a, b), (c, d))" by (metis surj_pair)
  show "p \<in> nn_bonds n m \<longleftrightarrow> p \<in> up_bonds n m \<union> right_bonds n m"
    unfolding p Un_iff up_bonds_iff right_bonds_iff nn_bonds_iff by auto
qed

lemma set_gen_pairs_open: "set (gen_pairs n m False) = nn_bonds n m"
proof -
  have "(\<Union>s\<in>lattice n m. set (pairs_at n m False s)) = nn_bonds n m" (is "?L = ?R")
  proof (intro set_eqI iffI)
    fix p assume "p \<in> ?L"
    then obtain i j where s: "(i, j) \<in> lattice n m" and p: "p \<in> set (pairs_at n m False (i, j))"
      by auto
    from p s show "p \<in> ?R"
      by (auto simp: pairs_at_open[OF s] nn_bonds_def lattice_def split: if_splits)
  next
    fix p assume "p \<in> ?R"
    then obtain a b where p: "p = (a, b)" and a: "a \<in> lattice n m" and b: "b \<in> lattice n m"
      and nb: "b = (fst a + 1, snd a) \<or> b = (fst a, snd a + 1)"
      by (auto simp: nn_bonds_def)
    obtain i j where ij: "a = (i, j)" by (cases a)
    have "p \<in> set (pairs_at n m False (i, j))"
      using a b nb unfolding p ij by (auto simp: pairs_at_open lattice_def)
    with a ij show "p \<in> ?L" by blast
  qed
  then show ?thesis by (simp add: set_gen_pairs)
qed

lemma distinct_concat_map:
  assumes "distinct xs" and "\<And>x. x \<in> set xs \<Longrightarrow> distinct (f x)"
    and "\<And>x y. x \<in> set xs \<Longrightarrow> y \<in> set xs \<Longrightarrow> x \<noteq> y \<Longrightarrow> set (f x) \<inter> set (f y) = {}"
  shows "distinct (concat (map f xs))"
  using assms
proof (induction xs)
  case Nil
  then show ?case by simp
next
  case (Cons x xs)
  have "set (f x) \<inter> (\<Union>y\<in>set xs. set (f y)) = {}"
    using Cons.prems(1) Cons.prems(3)[of x] by fastforce
  moreover have "distinct (concat (map f xs))"
    using Cons by simp
  ultimately show ?case using Cons.prems(2)[of x] by simp
qed

lemma fst_pairs_at: "p \<in> set (pairs_at n m c s) \<Longrightarrow> fst p = s"
  by (auto simp: pairs_at_def Let_def split: prod.splits if_splits)

lemma distinct_pairs_at_open: "s \<in> lattice n m \<Longrightarrow> distinct (pairs_at n m False s)"
  by (cases s) (auto simp: pairs_at_open)

lemma distinct_gen_pairs_open: "distinct (gen_pairs n m False)"
  unfolding gen_pairs_def
proof (rule distinct_concat_map)
  show "distinct (sites n m)" by (rule distinct_sites)
next
  fix x assume "x \<in> set (sites n m)"
  then show "distinct (pairs_at n m False x)"
    by (simp add: set_sites distinct_pairs_at_open)
next
  fix x y :: site assume "x \<noteq> y"
  show "set (pairs_at n m False x) \<inter> set (pairs_at n m False y) = {}"
  proof (rule ccontr)
    assume "set (pairs_at n m False x) \<inter> set (pairs_at n m False y) \<noteq> {}"
    then obtain p where "p \<in> set (pairs_at n m False x)" "p \<in> set (pairs_at n m False y)"
      by blast
    then have "fst p = x" "fst p = y" by (auto dest: fst_pairs_at)
    with \<open>x \<noteq> y\<close> show False by simp
  qed
qed

lemma card_up_bonds: "card (up_bonds n m) = nat (n - 1) * nat m"
proof -
  have "inj_on (\<lambda>(i, j). ((i, j), (i + 1, j))) ({0..<n - 1} \<times> {0..<m})"
    by (auto simp: inj_on_def)
  then show ?thesis
    by (simp add: up_bonds_def card_image)
qed

lemma card_right_bonds: "card (right_bonds n m) = nat n * nat (m - 1)"
proof -
  have "inj_on (\<lambda>(i, j). ((i, j), (i, j + 1))) ({0..<n} \<times> {0..<m - 1})"
    by (auto simp: inj_on_def)
  then show ?thesis
    by (simp add: right_bonds_def card_image)
qed

lemma up_right_disjoint: "up_bonds n m \<inter> right_bonds n m = {}"
  by (auto simp: up_bonds_def right_bonds_def)

lemma finite_up_bonds: "finite (up_bonds n m)"
  by (simp add: up_bonds_def)

lemma finite_right_bonds: "finite (right_bonds n m)"
  by (simp add: right_bonds_def)

lemma card_nn_bonds: "card (nn_bonds n m) = nat (n - 1) * nat m + nat n * nat (m - 1)"
  by (simp add: nn_bonds_split card_Un_disjoint finite_up_bonds finite_right_bonds
      up_right_disjoint card_up_bonds card_right_bonds)

lemma length_gen_pairs_open:
  "length (gen_pairs n m False) = nat (n - 1) * nat m + nat n * nat (m - 1)"
proof -
  have "length (gen_pairs n m False) = card (set (gen_pairs n m False))"
    by (simp add: distinct_card distinct_gen_pairs_open)
  then show ?thesis by (simp add: set_gen_pairs_open card_nn_bonds)
qed


lemma py_sum_Nil: "py_sum [] = IntZero"
  by (simp add: py_sum_def)

lemma foldl_py_add_Matrix: "foldl py_add (Matrix a) xs = Matrix (a + sum_list xs)"
  for a :: "'a::monoid_add"
  by (induction xs arbitrary: a) (simp_all add: py_add_def add.assoc)

lemma py_sum_sum_list:
  fixes xs :: "'a::monoid_add list"
  assumes "xs \<noteq> []"
  shows "py_sum xs = Matrix (sum_list xs)"
proof -
  from assms obtain x ys where xs: "xs = x # ys"
    by (cases xs) simp_all
  show ?thesis
    unfolding xs by (simp add: py_sum_def py_add_def foldl_py_add_Matrix)
qed

lemma ham_heis_2D_no_term:
  assumes "all_terms L n m j bz cyclic = []"
  shows "ham_heis_2D L n m j bz cyclic sparse = (if sparse then Inr IntZero else Inl AttributeError)"
  by (simp add: ham_heis_2D_def assms py_sum_Nil finish_def)

lemma ham_heis_2D_terms:
  fixes L :: "'q::monoid_add quimb"
  assumes "all_terms L n m j bz cyclic \<noteq> []"
  shows "ham_heis_2D L n m j bz cyclic sparse =
     Inr (Matrix (finish_matrix L sparse (sum_list (all_terms L n m j bz cyclic))))"
  by (simp add: ham_heis_2D_def py_sum_sum_list[OF assms] finish_def)

lemma distinct_xyz: "distinct ''xyz''"
  by simp

lemma set_pairs_ss_open:
  "set (pairs_ss n m False) = nn_bonds n m \<times> {CHR ''x'', CHR ''y'', CHR ''z''}"
  by (auto simp add: pairs_ss_def set_gen_pairs_open)

lemma distinct_pairs_ss_open: "distinct (pairs_ss n m False)"
  unfolding pairs_ss_def by (intro distinct_product distinct_gen_pairs_open distinct_xyz)

lemma finite_nn_bonds: "finite (nn_bonds n m)"
  by (simp add: nn_bonds_split finite_up_bonds finite_right_bonds)

lemma sum_list_all_terms_open:
  fixes L :: "'q::comm_monoid_add quimb"
  shows "sum_list (all_terms L n m j bz False) =
     (\<Sum>b\<in>nn_bonds n m. \<Sum>s\<in>{CHR ''x'', CHR ''y'', CHR ''z''}.
        ikron L (smul L j (spin_operator L s)) (dims_of n m) [fst b, snd b]) +
     (if bz \<noteq> 0
      then \<Sum>site\<in>lattice n m. ikron L (smul L bz (spin_operator L CHR ''z'')) (dims_of n m) [site]
      else 0)"
proof -
  let ?f = "\<lambda>b s. ikron L (smul L j (spin_operator L s)) (dims_of n m) [fst b, snd b]"
  let ?g = "\<lambda>site. ikron L (smul L bz (spin_operator L CHR ''z'')) (dims_of n m) [site]"
  have i: "interactions L (dims_of n m) j = (\<lambda>(b, s). ?f b s)"
    by (auto simp: interactions_def fun_eq_iff)
  have g: "fields_z L (dims_of n m) bz = ?g"
    by (auto simp: fields_z_def fun_eq_iff)
  have "sum_list (map (interactions L (dims_of n m) j) (pairs_ss n m False)) =
        (\<Sum>p\<in>set (pairs_ss n m False). interactions L (dims_of n m) j p)"
    by (rule sum_list_distinct_conv_sum_set[OF distinct_pairs_ss_open])
  also have "\<dots> = (\<Sum>(b, s)\<in>nn_bonds n m \<times> {CHR ''x'', CHR ''y'', CHR ''z''}. ?f b s)"
    by (simp only: set_pairs_ss_open i)
  also have "\<dots> = (\<Sum>b\<in>nn_bonds n m. \<Sum>s\<in>{CHR ''x'', CHR ''y'', CHR ''z''}. ?f b s)"
    by (rule sum.cartesian_product[symmetric])
  finally have 1: "sum_list (map (interactions L (dims_of n m) j) (pairs_ss n m False)) =
        (\<Sum>b\<in>nn_bonds n m. \<Sum>s\<in>{CHR ''x'', CHR ''y'', CHR ''z''}. ?f b s)" .
  have 2: "sum_list (map (fields_z L (dims_of n m) bz) (sites n m)) = (\<Sum>site\<in>lattice n m. ?g site)"
    using sum_list_distinct_conv_sum_set[OF distinct_sites, of "fields_z L (dims_of n m) bz" n m]
    by (simp only: set_sites g)
  show ?thesis
    unfolding all_terms_def Let_def sum_list_append 1
    by (simp only: 2 if_distrib[of sum_list] sum_list.Nil cong: if_cong)
qed

lemma sum_list_all_terms_heisenberg:
  fixes L :: "'q::comm_monoid_add quimb"
  shows "sum_list (all_terms L n m j bz False) = heisenberg_sum L n m j bz"
  unfolding heisenberg_sum_def dims_of_def[symmetric] by (rule sum_list_all_terms_open)

lemma length_pairs_ss: "length (pairs_ss n m c) = 3 * length (gen_pairs n m c)"
  by (simp add: pairs_ss_def)

lemma length_all_terms:
  "length (all_terms L n m j bz c) =
     length (pairs_ss n m c) + (if bz \<noteq> 0 then length (sites n m) else 0)"
  by (simp add: all_terms_def Let_def)

lemma all_terms_open_nonempty:
  "all_terms L n m j bz False \<noteq> [] \<longleftrightarrow> 1 \<le> n \<and> 1 \<le> m \<and> (2 \<le> n \<or> 2 \<le> m \<or> bz \<noteq> 0)"
proof -
  have "all_terms L n m j bz False \<noteq> [] \<longleftrightarrow> 0 < length (all_terms L n m j bz False)"
    by simp
  also have "\<dots> \<longleftrightarrow> 1 \<le> n \<and> 1 \<le> m \<and> (2 \<le> n \<or> 2 \<le> m \<or> bz \<noteq> 0)"
    unfolding length_all_terms length_pairs_ss length_gen_pairs_open length_sites
    by (auto simp: zero_less_nat_eq)
  finally show ?thesis .
qed

lemma nn_bonds_adjacent:
  assumes "p \<in> nn_bonds n m"
  shows "fst p \<in> lattice n m \<and> snd p \<in> lattice n m \<and> fst p \<noteq> snd p \<and> adjacent (fst p) (snd p)"
  using assms by (auto simp: nn_bonds_def adjacent_def)



lemma filter_pairs_at:
  assumes "s \<in> lattice n m"
  shows "filter (\<lambda>p. \<not> is_wraparound n m p) (pairs_at n m True s) = pairs_at n m False s"
proof -
  obtain i j where s: "s = (i, j)" by (cases s)
  from assms show ?thesis
    unfolding s by (auto simp: pairs_at_cyclic pairs_at_open is_wraparound_def lattice_def)
qed

lemma gen_pairs_filter:
  "gen_pairs n m False = filter (\<lambda>p. \<not> is_wraparound n m p) (gen_pairs n m True)"
proof -
  have "map (filter (\<lambda>p. \<not> is_wraparound n m p) \<circ> pairs_at n m True) (sites n m) =
        map (pairs_at n m False) (sites n m)"
    by (rule map_cong) (simp_all add: set_sites filter_pairs_at)
  then show ?thesis
    unfolding gen_pairs_def filter_concat map_map by (rule arg_cong[of _ _ concat, symmetric])
qed

lemma wrap_up_in_cyclic:
  assumes "1 \<le> n" "0 \<le> j" "j < m"
  shows "((n - 1, j), (0, j)) \<in> set (gen_pairs n m True)"
proof -
  have s: "(n - 1, j) \<in> lattice n m" using assms by (simp add: lattice_def)
  have "((n - 1, j), (0, j)) \<in> set (pairs_at n m True (n - 1, j))"
    by (simp add: pairs_at_cyclic[OF s])
  with s show ?thesis unfolding set_gen_pairs by blast
qed

lemma wrap_right_in_cyclic:
  assumes "1 \<le> m" "0 \<le> i" "i < n"
  shows "((i, m - 1), (i, 0)) \<in> set (gen_pairs n m True)"
proof -
  have s: "(i, m - 1) \<in> lattice n m" using assms by (simp add: lattice_def)
  have "((i, m - 1), (i, 0)) \<in> set (pairs_at n m True (i, m - 1))"
    by (simp add: pairs_at_cyclic[OF s])
  with s show ?thesis unfolding set_gen_pairs by blast
qed

lemma is_wraparound_in_cyclic:
  assumes "is_wraparound n m p" and "1 \<le> n" and "1 \<le> m"
  shows "p \<in> set (gen_pairs n m True)"
proof -
  obtain i j k l where p: "p = ((i, j), (k, l))" by (metis surj_pair)
  from assms consider "i = n - 1" "k = 0" "l = j" "0 \<le> j" "j < m"
    | "j = m - 1" "l = 0" "k = i" "0 \<le> i" "i < n"
    unfolding p is_wraparound_def by auto
  then show ?thesis
  proof cases
    case 1
    then show ?thesis unfolding p using wrap_up_in_cyclic[of n j m] assms(2) by simp
  next
    case 2
    then show ?thesis unfolding p using wrap_right_in_cyclic[of m i n] assms(3) by simp
  qed
qed

lemma wraparound_not_open: "p \<in> set (gen_pairs n m False) \<Longrightarrow> \<not> is_wraparound n m p"
  by (simp add: gen_pairs_filter)

text \<open>
  Claim C3. With \<open>cyclic = True\<close>, \<open>n \<ge> 2\<close> and \<open>m \<ge> 2\<close>, \<open>gen_pairs\<close> yields for
  every column \<open>j\<close> the pair \<open>((n - 1, j), (0, j))\<close> and for every row \<open>i\<close> the pair
  \<open>((i, m - 1), (i, 0))\<close>. With \<open>cyclic = False\<close> exactly these wraparound pairs are
  omitted: the non-cyclic sequence is the cyclic one with the wraparound pairs removed,
  all other pairs staying where they are.
\<close>

theorem gen_pairs_cyclic_wraparound:
  assumes "2 \<le> n" and "2 \<le> m"
  shows "(\<forall>j\<in>{0..<m}. ((n - 1, j), (0, j)) \<in> set (gen_pairs n m True)) \<and>
         (\<forall>i\<in>{0..<n}. ((i, m - 1), (i, 0)) \<in> set (gen_pairs n m True)) \<and>
         (\<forall>p. is_wraparound n m p \<longleftrightarrow>
              (\<exists>j\<in>{0..<m}. p = ((n - 1, j), (0, j))) \<or> (\<exists>i\<in>{0..<n}. p = ((i, m - 1), (i, 0)))) \<and>
         gen_pairs n m False = filter (\<lambda>p. \<not> is_wraparound n m p) (gen_pairs n m True) \<and>
         set (gen_pairs n m True) = set (gen_pairs n m False) \<union> {p. is_wraparound n m p} \<and>
         set (gen_pairs n m False) \<inter> {p. is_wraparound n m p} = {}"
proof -
  have n: "1 \<le> n" and m: "1 \<le> m" using assms by simp_all
  have up: "\<forall>j\<in>{0..<m}. ((n - 1, j), (0, j)) \<in> set (gen_pairs n m True)"
    using wrap_up_in_cyclic[OF n] by simp
  have right: "\<forall>i\<in>{0..<n}. ((i, m - 1), (i, 0)) \<in> set (gen_pairs n m True)"
    using wrap_right_in_cyclic[OF m] by simp
  have char: "\<forall>p. is_wraparound n m p \<longleftrightarrow>
              (\<exists>j\<in>{0..<m}. p = ((n - 1, j), (0, j))) \<or> (\<exists>i\<in>{0..<n}. p = ((i, m - 1), (i, 0)))"
    by (auto simp: is_wraparound_def)
  have un: "set (gen_pairs n m True) = set (gen_pairs n m False) \<union> {p. is_wraparound n m p}"
    using is_wraparound_in_cyclic[OF _ n m] by (auto simp: gen_pairs_filter)
  have disj: "set (gen_pairs n m False) \<inter> {p. is_wraparound n m p} = {}"
    using wraparound_not_open by blast
  from up right char gen_pairs_filter un disj show ?thesis by blast
qed

theorem gen_pairs_cyclic_wraparound_witness:
  "(2::int) \<le> 2 \<and> (2::int) \<le> 3 \<and>
   ((1, 2), (0, 2)) \<in> set (gen_pairs 2 3 True) \<and>
   ((1, 2), (1, 0)) \<in> set (gen_pairs 2 3 True) \<and>
   is_wraparound 2 3 ((1, 2), (0, 2)) \<and>
   gen_pairs 2 3 False = filter (\<lambda>p. \<not> is_wraparound 2 3 p) (gen_pairs 2 3 True) \<and>
   ((1, 2), (0, 2)) \<notin> set (gen_pairs 2 3 False)"
proof -
  have h: "(2::int) \<le> 2" "(2::int) \<le> 3"
    by simp_all
  have w: "is_wraparound 2 3 ((1, 2), (0, 2))"
    by (simp add: is_wraparound_def)
  note c = gen_pairs_cyclic_wraparound[OF h]
  from c have "\<forall>j\<in>{0..<3}. ((2 - 1, j), (0, j)) \<in> set (gen_pairs 2 3 True)"
    by (rule conjunct1)
  then have 1: "((1, 2), (0, 2)) \<in> set (gen_pairs 2 3 True)"
    by (simp add: Ball_def)
  from c have "\<forall>i\<in>{0..<2}. ((i, 3 - 1), (i, 0)) \<in> set (gen_pairs 2 3 True)"
    by (elim conjE)
  then have 2: "((1, 2), (1, 0)) \<in> set (gen_pairs 2 3 True)"
    by (simp add: Ball_def)
  from c have 3: "gen_pairs 2 3 False = filter (\<lambda>p. \<not> is_wraparound 2 3 p) (gen_pairs 2 3 True)"
    by (elim conjE)
  from c have "set (gen_pairs 2 3 False) \<inter> {p. is_wraparound 2 3 p} = {}"
    by (elim conjE)
  with w have 4: "((1, 2), (0, 2)) \<notin> set (gen_pairs 2 3 False)"
    by blast
  from h 1 2 w 3 4 show ?thesis
    by (intro conjI)
qed

section \<open>The matrix model\<close>

lemma py_range_nat: "py_range (int (nat m)) = py_range m"
  by (cases "0 \<le> m") (simp_all add: py_range_def)

lemma coords_dims_of: "coords (dims_of n m) = sites n m"
proof (cases "n \<le> 0")
  case True
  then show ?thesis by (simp add: coords_def dims_of_def sites_def py_range_def)
next
  case False
  then obtain k where k: "nat n = Suc k" by (cases "nat n") auto
  have d: "dims_of n m = replicate (nat m) 2 # replicate k (replicate (nat m) 2)"
    by (simp add: dims_of_def k)
  have "int (length (dims_of n m)) = int (nat n)"
    by (simp add: dims_of_def)
  then have "coords (dims_of n m) = List.product (py_range (int (nat n))) (py_range (int (nat m)))"
    unfolding coords_def by (simp add: d)
  then show ?thesis
    by (simp only: py_range_nat sites_def)
qed


lemma entry_zero: "entry 0 r c = 0"
  by (simp add: zero_cmat_def)

lemma entry_plus: "entry (A + B) r c = entry A r c + entry B r c"
  by (simp add: plus_cmat_def)

lemma entry_sum_list: "entry (sum_list ts) r c = (\<Sum>t\<leftarrow>ts. entry t r c)"
  by (induction ts) (simp_all add: entry_zero entry_plus)

lemma real_entries_sum_list:
  assumes "\<And>t. t \<in> set ts \<Longrightarrow> real_entries t"
  shows "real_entries (sum_list ts)"
proof -
  have "Im (\<Sum>t\<leftarrow>ts. entry t r c) = 0" for r c
    using assms by (induction ts) (simp_all add: real_entries_def)
  then show ?thesis by (simp add: real_entries_def entry_sum_list)
qed

lemma real_entries_eye: "real_entries (eye d)"
  by (simp add: real_entries_def eye_def)

lemma real_entries_scale: "real_entries A \<Longrightarrow> real_entries (cmat_scale a A)"
  by (simp add: real_entries_def cmat_scale_def)

lemma imag_entries_scale: "imag_entries A \<Longrightarrow> imag_entries (cmat_scale a A)"
  by (simp add: imag_entries_def cmat_scale_def)

lemma real_entries_spin_x: "real_entries (spin_half CHR ''x'')"
  by (simp add: real_entries_def spin_half_def)

lemma real_entries_spin_z: "real_entries (spin_half CHR ''z'')"
  by (simp add: real_entries_def spin_half_def)

lemma imag_entries_spin_y: "imag_entries (spin_half CHR ''y'')"
  by (simp add: imag_entries_def spin_half_def)

lemma kron_entries_real:
  assumes "\<And>d B. (d, B) \<in> set fs \<Longrightarrow> real_entries B"
  shows "Im (kron_entries fs r c) = 0"
  using assms
proof (induction fs arbitrary: r c)
  case Nil
  then show ?case by simp
next
  case (Cons f fs)
  obtain d B where f: "f = (d, B)" by (cases f)
  have B: "real_entries B" using Cons.prems[of d B] by (simp add: f)
  have IH: "Im (kron_entries fs r' c') = 0" for r' c'
  proof (rule Cons.IH)
    fix d' B' assume "(d', B') \<in> set fs"
    then show "real_entries B'" using Cons.prems[of d' B'] by simp
  qed
  show ?case
    using B IH by (simp add: f Let_def real_entries_def)
qed

lemma kron_entries_parity:
  fixes dd :: "'s \<Rightarrow> nat" and S :: "'s set"
  assumes A: "imag_entries A"
  defines "F \<equiv> map (\<lambda>s. (dd s, if s \<in> S then A else eye (dd s)))"
  shows "(even (length (filter (\<lambda>s. s \<in> S) xs)) \<longrightarrow> (\<forall>r c. Im (kron_entries (F xs) r c) = 0)) \<and>
         (odd (length (filter (\<lambda>s. s \<in> S) xs)) \<longrightarrow> (\<forall>r c. Re (kron_entries (F xs) r c) = 0))"
proof (induction xs)
  case Nil
  then show ?case by (simp add: F_def)
next
  case (Cons x xs)
  show ?case
  proof (cases "x \<in> S")
    case True
    then have F: "F (x # xs) = (dd x, A) # F xs" by (simp add: F_def)
    have len: "length (filter (\<lambda>s. s \<in> S) (x # xs)) = Suc (length (filter (\<lambda>s. s \<in> S) xs))"
      using True by simp
    show ?thesis
      unfolding F len using Cons.IH A
      by (auto simp: Let_def imag_entries_def)
  next
    case False
    then have F: "F (x # xs) = (dd x, eye (dd x)) # F xs" by (simp add: F_def)
    have len: "length (filter (\<lambda>s. s \<in> S) (x # xs)) = length (filter (\<lambda>s. s \<in> S) xs)"
      using False by simp
    have e: "Im (entry (eye (dd x)) r c) = 0" for r c
      by (simp add: eye_def)
    show ?thesis
      unfolding F len using Cons.IH e
      by (auto simp: Let_def)
  qed
qed

lemma two_marked:
  assumes "distinct xs" "a \<in> set xs" "b \<in> set xs" "a \<noteq> b"
  shows "length (filter (\<lambda>s. s \<in> set [a, b]) xs) = 2"
proof -
  have "{x. x \<in> set [a, b]} \<inter> set xs = {a, b}"
    using assms by auto
  then show ?thesis
    using assms by (simp add: distinct_length_filter)
qed

lemma ikron_place_real:
  assumes "real_entries A"
  shows "real_entries (ikron_place A dims inds)"
  unfolding real_entries_def ikron_place_def cmat.sel
proof (intro allI kron_entries_real)
  fix d B
  assume "(d, B) \<in> set (map (\<lambda>s. let d = nat (dims ! nat (fst s) ! nat (snd s))
                 in (d, if s \<in> set inds then A else eye d)) (coords dims))"
  then show "real_entries B"
    using assms by (auto simp: Let_def real_entries_eye split: if_splits)
qed

lemma ikron_place_imag_pair:
  assumes A: "imag_entries A" and ab: "a \<in> set (coords dims)" "b \<in> set (coords dims)" "a \<noteq> b"
  shows "real_entries (ikron_place A dims [a, b])"
proof -
  have dist: "distinct (coords dims)"
    by (simp add: coords_def distinct_product distinct_py_range split: list.splits)
  have two: "even (length (filter (\<lambda>s. s \<in> set [a, b]) (coords dims)))"
    using two_marked[OF dist ab] by simp
  have "Im (kron_entries (map (\<lambda>s. (nat (dims ! nat (fst s) ! nat (snd s)),
           if s \<in> set [a, b] then A else eye (nat (dims ! nat (fst s) ! nat (snd s))))) (coords dims)) r c) = 0" for r c
    using kron_entries_parity[OF A, of "set [a, b]" "coords dims" "\<lambda>s. nat (dims ! nat (fst s) ! nat (snd s))"] two
    by blast
  then show ?thesis
    by (simp add: real_entries_def ikron_place_def Let_def)
qed


lemma gen_pairs_in_lattice:
  assumes "p \<in> set (gen_pairs n m c)"
  shows "fst p \<in> lattice n m \<and> snd p \<in> lattice n m"
proof -
  from assms obtain i j where s: "(i, j) \<in> lattice n m" and p: "p \<in> set (pairs_at n m c (i, j))"
    unfolding set_gen_pairs by auto
  from s have b: "0 \<le> i" "i < n" "0 \<le> j" "j < m"
    by (simp_all add: lattice_def)
  show ?thesis
  proof (cases c)
    case True
    from p have "p = ((i, j), (if i + 1 = n then 0 else i + 1, j)) \<or>
                 p = ((i, j), (i, if j + 1 = m then 0 else j + 1))"
      using True by (simp add: pairs_at_cyclic[OF s])
    with b show ?thesis
      by (auto simp: lattice_def)
  next
    case False
    from p have "p = ((i, j), (i + 1, j)) \<and> i + 1 < n \<or> p = ((i, j), (i, j + 1)) \<and> j + 1 < m"
      using False by (simp add: pairs_at_open[OF s] split: if_splits)
    with b show ?thesis
      by (auto simp: lattice_def)
  qed
qed

lemma gen_pairs_cyclic_distinct_sites:
  assumes "2 \<le> n" "2 \<le> m" "p \<in> set (gen_pairs n m True)"
  shows "fst p \<noteq> snd p"
proof -
  from assms(3) obtain i j where s: "(i, j) \<in> lattice n m" and p: "p \<in> set (pairs_at n m True (i, j))"
    unfolding set_gen_pairs by auto
  from s have b: "0 \<le> i" "i < n" "0 \<le> j" "j < m"
    by (simp_all add: lattice_def)
  from p have "p = ((i, j), (if i + 1 = n then 0 else i + 1, j)) \<or>
               p = ((i, j), (i, if j + 1 = m then 0 else j + 1))"
    by (simp add: pairs_at_cyclic[OF s])
  then show ?thesis
  proof
    assume "p = ((i, j), (if i + 1 = n then 0 else i + 1, j))"
    with b assms(1) show ?thesis by (cases "i + 1 = n") simp_all
  next
    assume "p = ((i, j), (i, if j + 1 = m then 0 else j + 1))"
    with b assms(2) show ?thesis by (cases "j + 1 = m") simp_all
  qed
qed

lemma gen_pairs_distinct_sites:
  assumes "\<not> c \<or> (2 \<le> n \<and> 2 \<le> m)" "p \<in> set (gen_pairs n m c)"
  shows "fst p \<noteq> snd p"
proof (cases c)
  case True
  with assms(1) have "2 \<le> n" "2 \<le> m" by simp_all
  moreover from assms(2) True have "p \<in> set (gen_pairs n m True)" by simp
  ultimately show ?thesis by (rule gen_pairs_cyclic_distinct_sites)
next
  case False
  with assms(2) have "p \<in> nn_bonds n m" by (simp add: set_gen_pairs_open)
  from nn_bonds_adjacent[OF this] show ?thesis by simp
qed

lemma degenerate_row:
  assumes "s \<in> lattice 1 m"
  shows "(fst s + 1) mod 1 = fst s" and "(s, s) \<in> set (gen_pairs 1 m True)"
proof -
  obtain i j where s: "s = (i, j)" by (cases s)
  have i: "i = 0" using assms by (simp add: lattice_def s)
  show "(fst s + 1) mod 1 = fst s" by (simp add: s i)
  have "pairs_at 1 m True s = [(s, (0, j)), (s, (i, if j + 1 = m then 0 else j + 1))]"
    using pairs_at_cyclic[of i j 1 m] assms by (simp add: s i)
  then have "(s, s) \<in> set (pairs_at 1 m True s)"
    by (simp add: s i)
  with assms show "(s, s) \<in> set (gen_pairs 1 m True)"
    unfolding set_gen_pairs by blast
qed

lemma degenerate_column:
  assumes "s \<in> lattice n 1"
  shows "(snd s + 1) mod 1 = snd s" and "(s, s) \<in> set (gen_pairs n 1 True)"
proof -
  obtain i j where s: "s = (i, j)" by (cases s)
  have j: "j = 0" using assms by (simp add: lattice_def s)
  show "(snd s + 1) mod 1 = snd s" by (simp add: s j)
  have "pairs_at n 1 True s = [(s, (if i + 1 = n then 0 else i + 1, j)), (s, (i, 0))]"
    using pairs_at_cyclic[of i j n 1] assms by (simp add: s j)
  then have "(s, s) \<in> set (pairs_at n 1 True s)"
    by (simp add: s j)
  with assms show "(s, s) \<in> set (gen_pairs n 1 True)"
    unfolding set_gen_pairs by blast
qed

lemma interaction_in_all_terms:
  assumes "p \<in> set (gen_pairs n m c)" and "s \<in> set ''xyz''"
  shows "ikron L (smul L j (spin_operator L s)) (dims_of n m) [fst p, snd p]
           \<in> set (all_terms L n m j bz c)"
proof -
  have "(p, s) \<in> set (pairs_ss n m c)"
    using assms unfolding pairs_ss_def set_product by blast
  then have "interactions L (dims_of n m) j (p, s) \<in> set (all_terms L n m j bz c)"
    by (simp add: all_terms_def Let_def)
  then show ?thesis by (simp add: interactions_def)
qed

text \<open>
  Claim C10. With \<open>cyclic = True\<close> and \<open>n = 1\<close>, the wraparound coordinate
  \<open>(i + 1) % n\<close> of every site is \<open>i\<close> itself, so \<open>gen_pairs\<close> yields for every site
  \<open>s\<close> the degenerate pair \<open>(s, s)\<close>, and for each direction the term
  \<open>ikron(j * S, dims, inds=(s, s))\<close> with a repeated index is among the summed terms;
  symmetrically for \<open>m = 1\<close>. On a lattice with at least one site, every pair yielded
  with \<open>cyclic = True\<close> has two distinct sites exactly when \<open>n \<ge> 2\<close> and \<open>m \<ge> 2\<close>.
\<close>

theorem cyclic_needs_two_rows_and_columns:
  "(\<forall>s\<in>lattice 1 m. (fst s + 1) mod 1 = fst s \<and> (s, s) \<in> set (gen_pairs 1 m True) \<and>
      (\<forall>d\<in>set ''xyz''. ikron L (smul L j (spin_operator L d)) (dims_of 1 m) [s, s]
           \<in> set (all_terms L 1 m j bz True))) \<and>
   (\<forall>s\<in>lattice n 1. (snd s + 1) mod 1 = snd s \<and> (s, s) \<in> set (gen_pairs n 1 True) \<and>
      (\<forall>d\<in>set ''xyz''. ikron L (smul L j (spin_operator L d)) (dims_of n 1) [s, s]
           \<in> set (all_terms L n 1 j bz True))) \<and>
   (1 \<le> n \<and> 1 \<le> m \<longrightarrow>
      ((\<forall>p\<in>set (gen_pairs n m True). fst p \<noteq> snd p) \<longleftrightarrow> 2 \<le> n \<and> 2 \<le> m))"
proof -
  have row: "(fst s + 1) mod 1 = fst s \<and> (s, s) \<in> set (gen_pairs 1 m True) \<and>
      (\<forall>d\<in>set ''xyz''. ikron L (smul L j (spin_operator L d)) (dims_of 1 m) [s, s]
           \<in> set (all_terms L 1 m j bz True))" if "s \<in> lattice 1 m" for s
  proof -
    note g = degenerate_row[OF that]
    have "\<forall>d\<in>set ''xyz''. ikron L (smul L j (spin_operator L d)) (dims_of 1 m) [s, s]
           \<in> set (all_terms L 1 m j bz True)"
      using interaction_in_all_terms[OF g(2), of _ L j bz] by simp
    with g show ?thesis by blast
  qed
  have col: "(snd s + 1) mod 1 = snd s \<and> (s, s) \<in> set (gen_pairs n 1 True) \<and>
      (\<forall>d\<in>set ''xyz''. ikron L (smul L j (spin_operator L d)) (dims_of n 1) [s, s]
           \<in> set (all_terms L n 1 j bz True))" if "s \<in> lattice n 1" for s
  proof -
    note g = degenerate_column[OF that]
    have "\<forall>d\<in>set ''xyz''. ikron L (smul L j (spin_operator L d)) (dims_of n 1) [s, s]
           \<in> set (all_terms L n 1 j bz True)"
      using interaction_in_all_terms[OF g(2), of _ L j bz] by simp
    with g show ?thesis by blast
  qed
  have iff: "(\<forall>p\<in>set (gen_pairs n m True). fst p \<noteq> snd p) \<longleftrightarrow> 2 \<le> n \<and> 2 \<le> m"
    if nm: "1 \<le> n \<and> 1 \<le> m"
  proof
    assume all: "\<forall>p\<in>set (gen_pairs n m True). fst p \<noteq> snd p"
    have "n \<noteq> 1"
    proof
      assume n: "n = 1"
      have "(0, 0) \<in> lattice 1 m" using nm by (simp add: lattice_def)
      from degenerate_row(2)[OF this] all[unfolded n] show False by force
    qed
    moreover have "m \<noteq> 1"
    proof
      assume m: "m = 1"
      have "(0, 0) \<in> lattice n 1" using nm by (simp add: lattice_def)
      from degenerate_column(2)[OF this] all[unfolded m] show False by force
    qed
    ultimately show "2 \<le> n \<and> 2 \<le> m" using nm by simp
  next
    assume "2 \<le> n \<and> 2 \<le> m"
    then show "\<forall>p\<in>set (gen_pairs n m True). fst p \<noteq> snd p"
      using gen_pairs_cyclic_distinct_sites by blast
  qed
  from row col iff show ?thesis by blast
qed

theorem cyclic_needs_two_rows_and_columns_witness:
  "(0, 1) \<in> lattice 1 3 \<and> ((0, 1), (0, 1)) \<in> set (gen_pairs 1 3 True) \<and>
   ikron qlib (smul qlib 1 (spin_operator qlib CHR ''y'')) (dims_of 1 3) [(0, 1), (0, 1)]
     \<in> set (all_terms qlib 1 3 1 0 True) \<and>
   (1::int) \<le> 1 \<and> (1::int) \<le> 3 \<and>
   \<not> (\<forall>p\<in>set (gen_pairs 1 3 True). fst p \<noteq> snd p)"
proof -
  note c = cyclic_needs_two_rows_and_columns[where n = 1 and m = 3 and L = qlib and j = 1 and bz = 0]
  have s: "(0, 1) \<in> lattice 1 3"
    by (simp add: lattice_def)
  from c have row: "\<forall>s\<in>lattice 1 3. (fst s + 1) mod 1 = fst s \<and> (s, s) \<in> set (gen_pairs 1 3 True) \<and>
      (\<forall>d\<in>set ''xyz''. ikron qlib (smul qlib 1 (spin_operator qlib d)) (dims_of 1 3) [s, s]
           \<in> set (all_terms qlib 1 3 1 0 True))"
    by (rule conjunct1)
  from row s have 1: "((0, 1), (0, 1)) \<in> set (gen_pairs 1 3 True)"
    by blast
  have y: "CHR ''y'' \<in> set ''xyz''"
    by simp
  from row s y
  have 2: "ikron qlib (smul qlib 1 (spin_operator qlib CHR ''y'')) (dims_of 1 3) [(0, 1), (0, 1)]
     \<in> set (all_terms qlib 1 3 1 0 True)"
    by blast
  have h: "(1::int) \<le> 1 \<and> (1::int) \<le> 3"
    by simp
  from c have "(1::int) \<le> 1 \<and> (1::int) \<le> 3 \<longrightarrow>
      ((\<forall>p\<in>set (gen_pairs 1 3 True). fst p \<noteq> snd p) \<longleftrightarrow> (2::int) \<le> 1 \<and> (2::int) \<le> 3)"
    by (elim conjE)
  with h have 3: "\<not> (\<forall>p\<in>set (gen_pairs 1 3 True). fst p \<noteq> snd p)"
    by simp
  from s 1 2 h 3 show ?thesis
    by (intro conjI) simp_all
qed


text \<open>
  With \<open>cyclic = False\<close> and at least one term to sum (a lattice of \<open>n \<ge> 1\<close> by \<open>m \<ge> 1\<close>
  sites with a second row, a second column or \<open>bz \<noteq> 0\<close>), \<open>ham_heis_2D\<close> returns the sum,
  over every nearest-neighbour pair of sites and every direction \<open>s\<close> in \<open>x, y, z\<close>, of
  \<open>ikron(j * S\<^sup>s, dims, inds=pair)\<close> with \<open>dims = [[2] * m] * n\<close>, plus the field terms
  \<open>ikron(bz * S\<^sup>z, dims, inds=[site])\<close> of all sites if and only if \<open>bz \<noteq> 0\<close>, passed
  through the conversions at the end of the function.
\<close>

lemma ham_heis_2D_open_sum_of_terms:
  fixes L :: "'q::comm_monoid_add quimb"
  assumes "1 \<le> n" and "1 \<le> m" and "2 \<le> n \<or> 2 \<le> m \<or> bz \<noteq> 0"
  shows "ham_heis_2D L n m j bz False sparse =
     Inr (Matrix (finish_matrix L sparse (heisenberg_sum L n m j bz)))"
proof -
  from assms have "all_terms L n m j bz False \<noteq> []"
    by (simp add: all_terms_open_nonempty)
  from ham_heis_2D_terms[OF this] show ?thesis
    by (simp add: sum_list_all_terms_heisenberg)
qed

lemma all_terms_1_1: "all_terms L 1 1 j 0 False = []"
  using all_terms_open_nonempty[of L 1 1 j 0] by simp

text \<open>
  Claim C1. With \<open>cyclic = False\<close>, \<open>ham_heis_2D(n, m, j, bz, cyclic, sparse)\<close> is to return
  the sum of the interaction terms of all nearest-neighbour pairs and of the field terms
  if \<open>bz \<noteq> 0\<close>, for every \<open>n \<ge> 1\<close> and \<open>m \<ge> 1\<close>. On the lattice of one site (\<open>n = m = 1\<close>)
  with \<open>bz = 0.0\<close> there is no pair and no field term: \<open>sum\<close> of no term is the integer \<open>0\<close>,
  and the call \<open>ham_heis_2D(1, 1, j, 0.0, False, False)\<close> raises \<open>AttributeError\<close> at
  \<open>qarray(H.A)\<close> instead of returning the empty sum as a matrix; with \<open>sparse = True\<close> it
  returns the integer \<open>0\<close>, which is not a matrix either.
\<close>

theorem ham_heis_2D_one_site_no_field:
  "all_terms L 1 1 j 0 False = [] \<and>
   py_sum (all_terms L 1 1 j 0 False) = IntZero \<and>
   ham_heis_2D L 1 1 j 0 False False = Inl AttributeError \<and>
   ham_heis_2D L 1 1 j 0 False True = Inr IntZero"
  by (simp add: ham_heis_2D_no_term[OF all_terms_1_1] all_terms_1_1 py_sum_Nil)

lemma qlib_real_part: "isreal qlib X \<Longrightarrow> real_part qlib X = X"
proof -
  assume "isreal qlib X"
  then have "complex_of_real (Re (entry X r c)) = entry X r c" for r c
    by (simp add: qlib_def real_entries_def complex_eq_iff)
  then have "CMat (\<lambda>r c. complex_of_real (Re (entry X r c))) = CMat (entry X)"
    by simp
  then show ?thesis by (simp add: qlib_def)
qed

lemma qlib_to_dense: "to_dense qlib X = X"
  by (simp add: qlib_def)

lemma interactions_qlib_real:
  assumes p: "fst p \<in> lattice n m" "snd p \<in> lattice n m" "fst p \<noteq> snd p"
    and s: "s \<in> set ''xyz''"
  shows "real_entries (interactions qlib (dims_of n m) j (p, s))"
proof -
  have i: "interactions qlib (dims_of n m) j (p, s) =
           ikron_place (cmat_scale j (spin_half s)) (dims_of n m) [fst p, snd p]"
    by (simp add: interactions_def qlib_def)
  from s consider "s = CHR ''x''" | "s = CHR ''y''" | "s = CHR ''z''" by auto
  then show ?thesis
  proof cases
    case 1
    show ?thesis unfolding i unfolding 1
      by (intro ikron_place_real real_entries_scale real_entries_spin_x)
  next
    case 2
    have "imag_entries (cmat_scale j (spin_half CHR ''y''))"
      by (intro imag_entries_scale imag_entries_spin_y)
    then show ?thesis unfolding i unfolding 2
      using p by (intro ikron_place_imag_pair) (simp_all add: coords_dims_of set_sites)
  next
    case 3
    show ?thesis unfolding i unfolding 3
      by (intro ikron_place_real real_entries_scale real_entries_spin_z)
  qed
qed

lemma fields_qlib_real: "real_entries (fields_z qlib dims bz site)"
proof -
  have "fields_z qlib dims bz site = ikron_place (cmat_scale bz (spin_half CHR ''z'')) dims [site]"
    by (simp add: fields_z_def qlib_def)
  then show ?thesis
    by (simp add: ikron_place_real real_entries_scale real_entries_spin_z)
qed

lemma all_terms_qlib_real:
  assumes "\<not> cyclic \<or> (2 \<le> n \<and> 2 \<le> m)" and t: "t \<in> set (all_terms qlib n m j bz cyclic)"
  shows "real_entries t"
proof -
  from t consider p s where "(p, s) \<in> set (pairs_ss n m cyclic)"
      "t = interactions qlib (dims_of n m) j (p, s)"
    | site where "t = fields_z qlib (dims_of n m) bz site"
    by (auto simp: all_terms_def Let_def split: if_splits)
  then show ?thesis
  proof cases
    case 1
    then have p: "p \<in> set (gen_pairs n m cyclic)" and s: "s \<in> set ''xyz''"
      by (simp_all add: pairs_ss_def)
    from gen_pairs_in_lattice[OF p] gen_pairs_distinct_sites[OF assms(1) p] s
    show ?thesis unfolding 1(2) by (intro interactions_qlib_real) simp_all
  next
    case 2
    then show ?thesis by (simp add: fields_qlib_real)
  qed
qed

lemma all_terms_cyclic_nonempty:
  assumes "2 \<le> n" and "2 \<le> m"
  shows "all_terms L n m j bz True \<noteq> []"
proof -
  from assms have "(0, 0) \<in> lattice n m"
    by (simp add: lattice_def)
  then have "((0, 0), (1, 0)) \<in> set (gen_pairs n m True)"
    unfolding set_gen_pairs using assms by (auto simp: pairs_at_def Let_def intro!: bexI[of _ "(0, 0)"])
  then have "0 < length (gen_pairs n m True)"
    by auto
  then have "0 < length (all_terms L n m j bz True)"
    by (simp add: length_all_terms length_pairs_ss)
  then show ?thesis
    by auto
qed

text \<open>
  Claim C9, amended. In the matrix model, for all real \<open>j\<close> and \<open>bz\<close> and every lattice of
  \<open>n \<ge> 1\<close> by \<open>m \<ge> 1\<close> sites on which at least one term is summed and all yielded pairs
  have two distinct sites (\<open>n \<ge> 2\<close> and \<open>m \<ge> 2\<close>; or \<open>cyclic = False\<close> with \<open>n \<ge> 2\<close>, \<open>m \<ge> 2\<close>
  or \<open>bz \<noteq> 0\<close>), \<open>sum\<close> gives a matrix \<open>H\<close> that has only real entries: in each term with
  direction \<open>y\<close> the two imaginary factors multiply to a real number. So the \<open>isreal(H)\<close>
  branch is taken and the function returns the matrix \<open>H.real\<close>, with real entries, for
  either value of \<open>sparse\<close>.
\<close>

theorem ham_heis_2D_real:
  assumes "1 \<le> n" and "1 \<le> m"
    and "(2 \<le> n \<and> 2 \<le> m) \<or> (\<not> cyclic \<and> (2 \<le> n \<or> 2 \<le> m \<or> bz \<noteq> 0))"
  shows "py_sum (all_terms qlib n m j bz cyclic) = Matrix (sum_list (all_terms qlib n m j bz cyclic)) \<and>
         isreal qlib (sum_list (all_terms qlib n m j bz cyclic)) \<and>
         ham_heis_2D qlib n m j bz cyclic sparse =
           Inr (Matrix (real_part qlib (sum_list (all_terms qlib n m j bz cyclic)))) \<and>
         real_entries (real_part qlib (sum_list (all_terms qlib n m j bz cyclic)))"
proof -
  let ?H = "sum_list (all_terms qlib n m j bz cyclic)"
  have ne: "all_terms qlib n m j bz cyclic \<noteq> []"
  proof (cases cyclic)
    case True
    with assms(3) have "2 \<le> n" "2 \<le> m" by simp_all
    from all_terms_cyclic_nonempty[OF this] True show ?thesis by simp
  next
    case False
    with assms have "all_terms qlib n m j bz False \<noteq> []"
      unfolding all_terms_open_nonempty by blast
    with False show ?thesis by simp
  qed
  have d: "\<not> cyclic \<or> (2 \<le> n \<and> 2 \<le> m)"
    using assms(3) by blast
  have 0: "py_sum (all_terms qlib n m j bz cyclic) = Matrix ?H"
    by (rule py_sum_sum_list[OF ne])
  have r: "real_entries ?H"
    by (rule real_entries_sum_list) (rule all_terms_qlib_real[OF d])
  then have 1: "isreal qlib ?H" by (simp add: qlib_def)
  have 2: "ham_heis_2D qlib n m j bz cyclic sparse = Inr (Matrix (real_part qlib ?H))"
    unfolding ham_heis_2D_terms[OF ne] using 1 by (simp add: finish_matrix_def qlib_to_dense Let_def)
  have 3: "real_entries (real_part qlib ?H)"
    unfolding qlib_real_part[OF 1] by (rule r)
  from 0 1 2 3 show ?thesis by (intro conjI)
qed

theorem ham_heis_2D_real_witness:
  "(2::int) \<le> 2 \<and> (2::int) \<le> 3 \<and>
   isreal qlib (sum_list (all_terms qlib 2 3 1 0 True)) \<and>
   ham_heis_2D qlib 2 3 1 0 True False =
     Inr (Matrix (real_part qlib (sum_list (all_terms qlib 2 3 1 0 True)))) \<and>
   real_entries (real_part qlib (sum_list (all_terms qlib 2 3 1 0 True)))"
proof -
  have a: "(1::int) \<le> 2" and b: "(1::int) \<le> 3"
    by simp_all
  have h: "((2::int) \<le> 2 \<and> (2::int) \<le> 3) \<or> (\<not> True \<and> ((2::int) \<le> 2 \<or> (2::int) \<le> 3 \<or> (0::real) \<noteq> 0))"
    by simp
  note c = ham_heis_2D_real[OF a b h, of 1 False]
  from c have 1: "isreal qlib (sum_list (all_terms qlib 2 3 1 0 True))"
    by (elim conjE)
  from c have 2: "ham_heis_2D qlib 2 3 1 0 True False =
     Inr (Matrix (real_part qlib (sum_list (all_terms qlib 2 3 1 0 True))))"
    by (elim conjE)
  from c have 3: "real_entries (real_part qlib (sum_list (all_terms qlib 2 3 1 0 True)))"
    by (elim conjE)
  have 4: "(2::int) \<le> 2" and 5: "(2::int) \<le> 3"
    by simp_all
  from 4 5 1 2 3 show ?thesis
    by (intro conjI)
qed

lemma gen_pairs_1_1: "gen_pairs 1 1 True = [((0, 0), (0, 0)), ((0, 0), (0, 0))]"
  by code_simp

text \<open>
  The claim C9 as stated, for every \<open>n\<close> and \<open>m\<close>, fails in the matrix model on the
  cyclic lattice with one site: the pairs are degenerate, the operator of direction
  \<open>y\<close> is placed once, and the entry in row 0 and column 1 of \<open>H\<close> is \<open>1 - \<i>\<close>. The
  \<open>isreal(H)\<close> branch is not taken and the matrix returned is \<open>H\<close>, not real.
\<close>

theorem ham_heis_2D_not_real_counterexample:
  "py_sum (all_terms qlib 1 1 1 0 True) = Matrix (sum_list (all_terms qlib 1 1 1 0 True)) \<and>
   \<not> isreal qlib (sum_list (all_terms qlib 1 1 1 0 True)) \<and>
   ham_heis_2D qlib 1 1 1 0 True True = Inr (Matrix (sum_list (all_terms qlib 1 1 1 0 True))) \<and>
   \<not> real_entries (sum_list (all_terms qlib 1 1 1 0 True))"
proof -
  let ?H = "sum_list (all_terms qlib 1 1 1 0 True)"
  have c: "coords (dims_of 1 1) = [(0, 0)]"
    unfolding coords_dims_of by code_simp
  have d: "dims_of 1 1 = [[2]]"
    by (simp add: dims_of_def)
  have k: "entry (ikron_place A [[2]] [(0, 0), (0, 0)]) r c' = entry A r c'" for A r c'
    by (simp add: ikron_place_def c[unfolded d] Let_def)
  have t: "all_terms qlib 1 1 1 0 True =
     map (\<lambda>s. ikron_place (cmat_scale 1 (spin_half s)) [[2]] [(0, 0), (0, 0)]) ''xyzxyz''"
    by (simp add: all_terms_def pairs_ss_def gen_pairs_1_1 interactions_def qlib_def d Let_def)
  have ne: "all_terms qlib 1 1 1 0 True \<noteq> []"
    unfolding t by simp
  have 0: "py_sum (all_terms qlib 1 1 1 0 True) = Matrix ?H"
    by (rule py_sum_sum_list[OF ne])
  have e: "entry ?H 0 1 = 1 - \<i>"
    unfolding t entry_sum_list
    by (simp add: k cmat_scale_def spin_half_def)
  then have "Im (entry ?H 0 1) \<noteq> 0"
    by simp
  then have n: "\<not> real_entries ?H"
    unfolding real_entries_def by blast
  then have 1: "\<not> isreal qlib ?H" by (simp add: qlib_def)
  have 2: "ham_heis_2D qlib 1 1 1 0 True True = Inr (Matrix ?H)"
    unfolding ham_heis_2D_terms[OF ne] using 1 by (simp add: finish_matrix_def)
  from 0 1 2 n show ?thesis by (intro conjI)
qed

section \<open>Running the cells of \<open>ex_2d.ipynb\<close>\<close>

lemma ret_apply: "ret x s = Inr (x, s)"
  by (simp add: ret_def)

lemma pbind_apply: "pbind p f s = (case p s of Inl e \<Rightarrow> Inl e | Inr (x, s') \<Rightarrow> f x s')"
  by (simp add: pbind_def)

lemma pseq_apply: "pseq p q s = (case p s of Inl e \<Rightarrow> Inl e | Inr (x, s') \<Rightarrow> q s')"
  by (simp add: pseq_def pbind_def)

lemma lift_apply: "lift r s = (case r of Inl e \<Rightarrow> Inl e | Inr x \<Rightarrow> Inr (x, s))"
  by (simp add: lift_def)

lemma read_apply:
  "read name var s = (case var s of None \<Rightarrow> Inl (NameError name) | Some v \<Rightarrow> Inr (v, s))"
  by (simp add: read_def)

lemma modify_apply: "modify f s = Inr ((), f s)"
  by (simp add: modify_def)

lemma emit_apply: "emit e s = Inr ((), s\<lparr>events := events s @ [e]\<rparr>)"
  by (simp add: emit_def modify_def)

lemma import_module_apply:
  "import_module name s =
     Inr ((), s\<lparr>imported := imported s @ [name], events := events s @ [Import name]\<rparr>)"
  by (simp add: import_module_def pseq_apply modify_apply emit_apply)

lemma from_module_apply:
  "from_module name s = (if name \<in> set (imported s) then Inr ((), s) else Inl (NameError name))"
  by (simp add: from_module_def)

lemma assign_apply:
  "assign name upd s = Inr ((), (upd s)\<lparr>events := events (upd s) @ [Assign name]\<rparr>)"
  by (simp add: assign_def pseq_apply modify_apply emit_apply)

lemma block_Nil_apply: "block [] s = Inr ((), s)"
  by (simp add: ret_def)

lemma block_Cons_apply:
  "block (p # ps) s = (case p s of Inl e \<Rightarrow> Inl e | Inr (x, s') \<Rightarrow> block ps s')"
  by (simp add: pseq_apply)

lemmas prog_apply = ret_apply pbind_apply pseq_apply lift_apply read_apply modify_apply
  emit_apply import_module_apply from_module_apply assign_apply block_Nil_apply
  block_Cons_apply

lemma collect_pure:
  assumes "\<And>x. x \<in> set xs \<Longrightarrow> f x s = Inr (g x, s)"
  shows "collect xs f s = Inr (map g xs, s)"
  using assms by (induction xs) (simp_all add: ret_def pbind_def)

lemma py_index_py_range:
  assumes "i \<in> set (py_range n)"
  shows "py_index (map f (py_range n)) i = Inr (f i)"
proof -
  from assms have i: "0 \<le> i" "i < n" by (simp_all add: py_range_def)
  then have "[0..n - 1] ! nat i = i" by (simp add: nth_upto)
  with i show ?thesis
    by (simp add: py_index_def py_range_def Let_def)
qed

lemma cell7_run:
  assumes "''quimb'' \<in> set (imported st)" "v_n st = Some n" "v_m st = Some m"
    "v_dims st = Some dims"
  shows "cell7 L st = Inr ((), st\<lparr>events := events st @ [Assign ''Sz'', Assign ''Sz_ij''],
           v_Sz := Some (spin_operator L CHR ''Z''),
           v_Sz_ij := Some (site_grid n m (\<lambda>i j. ikron L (spin_operator L CHR ''Z'') dims [(i, j)]))\<rparr>)"
proof -
  let ?Sz = "spin_operator L CHR ''Z''"
  let ?s1 = "st\<lparr>v_Sz := Some ?Sz, events := events st @ [Assign ''Sz'']\<rparr>"
  have inner: "collect (py_range m) (\<lambda>j. pseq (from_module ''quimb'')
            (pbind (read ''Sz'' v_Sz) (\<lambda>Sz. pbind (read ''dims'' v_dims) (\<lambda>dims.
              ret (ikron L Sz dims [(i, j)]))))) ?s1 =
        Inr (map (\<lambda>j. ikron L ?Sz dims [(i, j)]) (py_range m), ?s1)" for i
    by (rule collect_pure) (simp add: prog_apply assms)
  have outer: "collect (py_range n) (\<lambda>i. pbind (read ''m'' v_m) (\<lambda>m.
          collect (py_range m) (\<lambda>j. pseq (from_module ''quimb'')
            (pbind (read ''Sz'' v_Sz) (\<lambda>Sz. pbind (read ''dims'' v_dims) (\<lambda>dims.
              ret (ikron L Sz dims [(i, j)]))))))) ?s1 =
        Inr (site_grid n m (\<lambda>i j. ikron L ?Sz dims [(i, j)]), ?s1)"
    unfolding site_grid_def
    by (rule collect_pure) (simp add: pbind_apply read_apply assms inner)
  show ?thesis
    unfolding cell7_def
    by (simp add: prog_apply assms outer del: block.simps)
qed

lemma for_each_emit:
  "for_each xs (\<lambda>x. emit (f x)) s = Inr ((), s\<lparr>events := events s @ map f xs\<rparr>)"
  by (induction xs arbitrary: s) (simp_all add: ret_apply pseq_apply emit_apply)

lemma index2_site_grid:
  assumes "i \<in> set (py_range n)" "j \<in> set (py_range m)"
  shows "index2 (site_grid n m f) i j = Inr (f i j)"
  using assms by (simp add: index2_def site_grid_def py_index_py_range)

lemma cell1_run:
  "cell1 st = Inr ((), st\<lparr>imported := imported st @ [''itertools'', ''operator'', ''numpy'', ''quimb''],
     events := events st @ [Import ''itertools'', Import ''operator'', Import ''numpy'',
       Import ''quimb'', Assign ''ham_heis_2D''],
     has_ham_heis_2D := True\<rparr>)"
  unfolding cell1_def by (simp add: prog_apply del: block.simps)

lemma cell2_run:
  "cell2 st = Inr ((), st\<lparr>events := events st @ [Assign ''n'', Assign ''m'', Assign ''dims'']
       @ map PrintRow (dims_of 4 5),
     v_n := Some 4, v_m := Some 5, v_dims := Some (dims_of 4 5)\<rparr>)"
  unfolding cell2_def by (simp add: prog_apply for_each_emit del: block.simps)

lemma cell3_run:
  assumes "has_ham_heis_2D st" "''itertools'' \<in> set (imported st)" "''quimb'' \<in> set (imported st)"
    "v_n st = Some n" "v_m st = Some m"
  shows "cell3 L st =
     (case ham_heis_2D L n m 1 0 False True of
        Inl e \<Rightarrow> Inl e
      | Inr H \<Rightarrow> Inr ((), st\<lparr>events := events st @ [Assign ''H''], v_H := Some H\<rparr>))"
  unfolding cell3_def call_ham_heis_2D_def by (simp add: prog_apply assms split: sum.splits)

lemma cell4_run:
  assumes "v_H st = Some H" "''quimb'' \<in> set (imported st)" "v_dims st = Some dims"
  shows "cell4 L st = Inr ((), st\<lparr>events := events st @ [Assign ''H''],
     v_H := Some (py_add H (smul L 0.2 (ikron L (spin_operator L CHR ''Z'') dims [(1, 2)])))\<rparr>)"
  unfolding cell4_def by (simp add: prog_apply assms)

lemma cell5_run:
  assumes "''quimb'' \<in> set (imported st)" "v_H st = Some H"
  shows "cell5 ob st = Inr ((), st\<lparr>events := events st @ [Assign ''ge'', Assign ''gs''],
     v_ge := Some [fst (eigh ob H)], v_gs := Some (snd (eigh ob H))\<rparr>)"
  unfolding cell5_def by (simp add: prog_apply assms split: prod.splits del: block.simps)

lemma cell6_run:
  assumes "v_ge st = Some (e # es)"
  shows "cell6 st = Inr ((), st\<lparr>events := events st @ [Show ''ge[0]'']\<rparr>)"
  unfolding cell6_def by (simp add: prog_apply assms py_index_def)

lemma plot_run:
  assumes "''matplotlib.pyplot'' \<in> set (imported st)" "var st = Some g"
  shows "plot name var st = Inr ((), st\<lparr>events := events st @
     [Show (''plt.imshow('' @ name @ '')''), Show ''plt.colorbar()'']\<rparr>)"
  unfolding plot_def by (simp add: prog_apply assms del: block.simps)

lemma cell8_run:
  assumes "''quimb'' \<in> set (imported st)" "v_n st = Some n" "v_m st = Some m"
    "v_Sz_ij st = Some (site_grid n m F)" "v_gs st = Some gs"
  shows "cell8 ob st = Inr ((), st\<lparr>imported := imported st @ [''matplotlib.pyplot''],
     events := events st @ [Assign ''m_ij'', Import ''matplotlib.pyplot'',
       Show ''plt.imshow(m_ij)'', Show ''plt.colorbar()''],
     v_m_ij := Some (site_grid n m (\<lambda>i j. expec ob (F i j) gs))\<rparr>)"
proof -
  have inner: "collect (py_range m) (\<lambda>j. pseq (from_module ''quimb'')
            (pbind (read ''Sz_ij'' v_Sz_ij) (\<lambda>g. pbind (lift (py_index g i)) (\<lambda>row.
             pbind (lift (py_index row j)) (\<lambda>A. pbind (read ''gs'' v_gs) (\<lambda>gs.
              ret (expec ob A gs))))))) st =
        Inr (map (\<lambda>j. expec ob (F i j) gs) (py_range m), st)" if "i \<in> set (py_range n)" for i
    by (rule collect_pure) (simp add: prog_apply assms site_grid_def py_index_py_range that)
  have outer: "collect (py_range n) (\<lambda>i. pbind (read ''m'' v_m) (\<lambda>m.
          collect (py_range m) (\<lambda>j. pseq (from_module ''quimb'')
            (pbind (read ''Sz_ij'' v_Sz_ij) (\<lambda>g. pbind (lift (py_index g i)) (\<lambda>row.
             pbind (lift (py_index row j)) (\<lambda>A. pbind (read ''gs'' v_gs) (\<lambda>gs.
              ret (expec ob A gs))))))))) st =
        Inr (site_grid n m (\<lambda>i j. expec ob (F i j) gs), st)"
    unfolding site_grid_def
    by (rule collect_pure) (simp add: pbind_apply read_apply assms inner)
  show ?thesis
    unfolding cell8_def
    by (simp add: prog_apply assms outer plot_run del: block.simps)
qed

lemma cell9_run:
  assumes "''quimb'' \<in> set (imported st)" "v_n st = Some n" "v_m st = Some m"
    "v_dims st = Some dims" "v_gs st = Some gs"
  shows "cell9 ob st = Inr ((), st\<lparr>events := events st @ [Assign ''target'', Assign ''rho_ab_ij''],
     v_target := Some (1, 2),
     v_rho_ab_ij := Some (site_grid n m (\<lambda>i j. partial_trace ob gs dims [(1, 2), (i, j)]))\<rparr>)"
proof -
  let ?s1 = "st\<lparr>v_target := Some (1, 2), events := events st @ [Assign ''target'']\<rparr>"
  have inner: "collect (py_range m) (\<lambda>j. pseq (from_module ''quimb'')
            (pbind (read ''gs'' v_gs) (\<lambda>gs. pbind (read ''dims'' v_dims) (\<lambda>dims.
             pbind (read ''target'' v_target) (\<lambda>t.
              ret (partial_trace ob gs dims [t, (i, j)])))))) ?s1 =
        Inr (map (\<lambda>j. partial_trace ob gs dims [(1, 2), (i, j)]) (py_range m), ?s1)" for i
    by (rule collect_pure) (simp add: prog_apply assms)
  have outer: "collect (py_range n) (\<lambda>i. pbind (read ''m'' v_m) (\<lambda>m.
          collect (py_range m) (\<lambda>j. pseq (from_module ''quimb'')
            (pbind (read ''gs'' v_gs) (\<lambda>gs. pbind (read ''dims'' v_dims) (\<lambda>dims.
             pbind (read ''target'' v_target) (\<lambda>t.
              ret (partial_trace ob gs dims [t, (i, j)])))))))) ?s1 =
        Inr (site_grid n m (\<lambda>i j. partial_trace ob gs dims [(1, 2), (i, j)]), ?s1)"
    unfolding site_grid_def
    by (rule collect_pure) (simp add: pbind_apply read_apply assms inner)
  show ?thesis
    unfolding cell9_def
    by (simp add: prog_apply assms outer del: block.simps)
qed

lemma rho_or_purified_run:
  assumes "''quimb'' \<in> set (imported st)" "v_target st = Some t"
    "v_rho_ab_ij st = Some (site_grid n m R)" "i \<in> set (py_range n)" "j \<in> set (py_range m)"
  shows "rho_or_purified ob i j st =
     Inr (if (i, j) \<noteq> t then R i j else purify ob (R i j), st)"
proof -
  have "rho_at i j st = Inr (R i j, st)"
    unfolding rho_at_def
    by (simp add: prog_apply assms site_grid_def py_index_py_range)
  then show ?thesis
    unfolding rho_or_purified_def by (simp add: prog_apply assms)
qed

lemma cell10_run:
  assumes "''quimb'' \<in> set (imported st)" "''matplotlib.pyplot'' \<in> set (imported st)"
    "v_n st = Some n" "v_m st = Some m" "v_target st = Some t"
    "v_rho_ab_ij st = Some (site_grid n m R)"
  shows "cell10 ob st = Inr ((), st\<lparr>events := events st @ [Assign ''mi_ij'',
       Show ''plt.imshow(mi_ij)'', Show ''plt.colorbar()''],
     v_mi_ij := Some (site_grid n m
       (\<lambda>i j. mutinf ob (if (i, j) \<noteq> t then R i j else purify ob (R i j))))\<rparr>)"
proof -
  have inner: "collect (py_range m) (\<lambda>j. pseq (from_module ''quimb'')
            (pbind (rho_or_purified ob i j) (\<lambda>r. ret (mutinf ob r)))) st =
        Inr (map (\<lambda>j. mutinf ob (if (i, j) \<noteq> t then R i j else purify ob (R i j)))
          (py_range m), st)" if "i \<in> set (py_range n)" for i
    by (rule collect_pure)
      (simp add: pseq_apply pbind_apply ret_apply from_module_apply assms(1)
        rho_or_purified_run[OF assms(1,5,6) that])
  have outer: "collect (py_range n) (\<lambda>i. pbind (read ''m'' v_m) (\<lambda>m.
          collect (py_range m) (\<lambda>j. pseq (from_module ''quimb'')
            (pbind (rho_or_purified ob i j) (\<lambda>r. ret (mutinf ob r)))))) st =
        Inr (site_grid n m
          (\<lambda>i j. mutinf ob (if (i, j) \<noteq> t then R i j else purify ob (R i j))), st)"
    unfolding site_grid_def
    by (rule collect_pure) (simp add: pbind_apply read_apply assms inner)
  show ?thesis
    unfolding cell10_def
    by (simp add: prog_apply assms outer plot_run del: block.simps)
qed

lemma cell11_run:
  assumes "''quimb'' \<in> set (imported st)"
  shows "cell11 L ob st = Inr ((), st\<lparr>events := events st @ [Assign ''Sy'', Assign ''z_corr''],
     v_Sy := Some (spin_operator L CHR ''y''),
     v_z_corr := Some (correlation ob (spin_operator L CHR ''y'') (spin_operator L CHR ''y'')
       0 1 [2, 2])\<rparr>)"
  unfolding cell11_def by (simp add: prog_apply assms del: block.simps)

lemma cell12_run:
  assumes "''quimb'' \<in> set (imported st)" "''matplotlib.pyplot'' \<in> set (imported st)"
    "v_n st = Some n" "v_m st = Some m" "v_target st = Some t"
    "v_rho_ab_ij st = Some (site_grid n m R)" "v_z_corr st = Some f"
  shows "cell12 ob st = Inr ((), st\<lparr>events := events st @ [Assign ''cy_ij'',
       Show ''plt.imshow(cy_ij)'', Show ''plt.colorbar()''],
     v_cy_ij := Some (site_grid n m
       (\<lambda>i j. f (if (i, j) \<noteq> t then R i j else purify ob (R i j))))\<rparr>)"
proof -
  have inner: "collect (py_range m) (\<lambda>j. pbind (read ''z_corr'' v_z_corr) (\<lambda>f.
            pbind (rho_or_purified ob i j) (\<lambda>r. ret (f r)))) st =
        Inr (map (\<lambda>j. f (if (i, j) \<noteq> t then R i j else purify ob (R i j)))
          (py_range m), st)" if "i \<in> set (py_range n)" for i
    by (rule collect_pure)
      (simp add: pbind_apply ret_apply read_apply assms(7)
        rho_or_purified_run[OF assms(1,5,6) that])
  have outer: "collect (py_range n) (\<lambda>i. pbind (read ''m'' v_m) (\<lambda>m.
          collect (py_range m) (\<lambda>j. pbind (read ''z_corr'' v_z_corr) (\<lambda>f.
            pbind (rho_or_purified ob i j) (\<lambda>r. ret (f r)))))) st =
        Inr (site_grid n m
          (\<lambda>i j. f (if (i, j) \<noteq> t then R i j else purify ob (R i j))), st)"
    unfolding site_grid_def
    by (rule collect_pure) (simp add: pbind_apply read_apply assms inner)
  show ?thesis
    unfolding cell12_def
    by (simp add: prog_apply assms outer plot_run del: block.simps)
qed

lemmas cell_runs = cell1_run cell2_run cell3_run cell4_run cell5_run cell6_run cell7_run
  cell8_run cell9_run cell10_run cell11_run cell12_run

lemma dims_of_4_5: "dims_of 4 5 = replicate 4 [2, 2, 2, 2, 2]"
  by (simp add: dims_of_def eval_nat_numeral)

lemma ham_heis_2D_4_5:
  fixes L :: "'q::monoid_add quimb"
  shows "ham_heis_2D L 4 5 1 0 False True =
     Inr (Matrix (finish_matrix L True (sum_list (all_terms L 4 5 1 0 False))))"
  by (rule ham_heis_2D_terms) (simp add: all_terms_open_nonempty)

lemma built_H_from_call:
  fixes L :: "'q::monoid_add quimb"
  shows "map_sum id
      (\<lambda>H. py_add H (smul L 0.2 (ikron L (spin_operator L CHR ''Z'') (dims_of 4 5) [(1, 2)])))
      (ham_heis_2D L 4 5 1 0 False True) = Inr (built_H L)"
  by (simp add: ham_heis_2D_4_5 built_H_def py_add_def)

lemma ex_2d_run:
  fixes L :: "'q::monoid_add quimb" and ob :: "'q observables"
  defines "gs \<equiv> snd (eigh ob (built_H L))"
  defines "rho \<equiv> \<lambda>i j. if (i, j) \<noteq> (1, 2)
     then partial_trace ob gs (dims_of 4 5) [(1, 2), (i, j)]
     else purify ob (partial_trace ob gs (dims_of 4 5) [(1, 2), (i, j)])"
  shows "run_cells (ex_2d L ob) fresh_2d = Inr
    \<lparr>imported = [''itertools'', ''operator'', ''numpy'', ''quimb'', ''matplotlib.pyplot''],
     events = ex_2d_events,
     has_ham_heis_2D = True,
     v_n = Some 4, v_m = Some 5, v_dims = Some (dims_of 4 5),
     v_H = Some (built_H L),
     v_ge = Some [fst (eigh ob (built_H L))],
     v_gs = Some gs,
     v_Sz = Some (spin_operator L CHR ''Z''),
     v_Sz_ij = Some (site_grid 4 5 (\<lambda>i j. ikron L (spin_operator L CHR ''Z'') (dims_of 4 5) [(i, j)])),
     v_m_ij = Some (site_grid 4 5
       (\<lambda>i j. expec ob (ikron L (spin_operator L CHR ''Z'') (dims_of 4 5) [(i, j)]) gs)),
     v_target = Some (1, 2),
     v_rho_ab_ij = Some (site_grid 4 5 (\<lambda>i j. partial_trace ob gs (dims_of 4 5) [(1, 2), (i, j)])),
     v_mi_ij = Some (site_grid 4 5 (\<lambda>i j. mutinf ob (rho i j))),
     v_Sy = Some (spin_operator L CHR ''y''),
     v_z_corr = Some (correlation ob (spin_operator L CHR ''y'') (spin_operator L CHR ''y'') 0 1 [2, 2]),
     v_cy_ij = Some (site_grid 4 5 (\<lambda>i j.
       correlation ob (spin_operator L CHR ''y'') (spin_operator L CHR ''y'') 0 1 [2, 2] (rho i j)))\<rparr>"
  unfolding gs_def rho_def built_H_def
  by (simp add: ex_2d_def fresh_2d_def cell_runs ham_heis_2D_4_5 py_add_def ex_2d_events_def
      dims_of_4_5 eval_nat_numeral cong: if_cong)

section \<open>Running the cells of \<open>ex_torch_optimize_pbc_mps.ipynb\<close>\<close>

lemma loop_body_run:
  assumes "t_mps st = Some mps" "t_target st = Some tg" "t_optimizer st = Some opt"
  shows "loop_body T t st = Inr ((), st\<lparr>events := events st @ round_events t (overlap_loss T tg mps),
     t_mps := Some (snd (opt_round T tg (opt, mps))),
     t_optimizer := Some (fst (opt_round T tg (opt, mps))),
     t_t := Some t,
     t_loss := Some (overlap_loss T tg mps, overlap_loss T tg)\<rparr>)"
proof -
  have f: "overlap_loss T tg = (\<lambda>x. - (matmul T x tg)\<^sup>2 / matmul T x x)"
    by (simp add: overlap_loss_def fun_eq_iff)
  show ?thesis
    unfolding loop_body_def f
    by (simp add: prog_apply assms round_events_def opt_round_def f case_prod_beta
        del: block.simps)
qed

lemma loop_events_Suc:
  "loop_events T tg om a (Suc d) =
     round_events a (overlap_loss T tg (snd om)) @ loop_events T tg (opt_round T tg om) (a + 1) d"
proof -
  have "[0..<Suc d] = 0 # map Suc [0..<d]"
    by (simp add: upt_conv_Cons map_Suc_upt del: upt_Suc)
  then show ?thesis
    unfolding loop_events_def
    by (simp add: comp_def funpow_swap1 add.assoc del: upt_Suc)
qed

lemma loop_run:
  assumes "t_mps st = Some mps" "t_target st = Some tg" "t_optimizer st = Some opt"
  shows "for_each [a..a + int d] (loop_body T) st = Inr ((),
     st\<lparr>events := events st @ loop_events T tg (opt, mps) a (Suc d),
       t_mps := Some (snd ((opt_round T tg ^^ Suc d) (opt, mps))),
       t_optimizer := Some (fst ((opt_round T tg ^^ Suc d) (opt, mps))),
       t_t := Some (a + int d),
       t_loss := Some (overlap_loss T tg (snd ((opt_round T tg ^^ d) (opt, mps))),
                       overlap_loss T tg)\<rparr>)"
  using assms
proof (induction d arbitrary: a st mps opt)
  case 0
  have l: "[a..a + int 0] = [a]" by simp
  show ?case
    unfolding l
    by (simp add: pseq_apply ret_apply loop_body_run[OF 0] loop_events_Suc loop_events_def)
next
  case (Suc d)
  have l: "[a..a + 1 + int d] = a # [a + 1..a + 1 + int d]"
    by (simp add: upto_rec1)
  let ?s1 = "st\<lparr>events := events st @ round_events a (overlap_loss T tg mps),
     t_mps := Some (snd (opt_round T tg (opt, mps))),
     t_optimizer := Some (fst (opt_round T tg (opt, mps))),
     t_t := Some a,
     t_loss := Some (overlap_loss T tg mps, overlap_loss T tg)\<rparr>"
  have IH: "for_each [a + 1..(a + 1) + int d] (loop_body T) ?s1 = Inr ((),
     ?s1\<lparr>events := events ?s1 @ loop_events T tg (opt_round T tg (opt, mps)) (a + 1) (Suc d),
       t_mps := Some (snd ((opt_round T tg ^^ Suc d) (opt_round T tg (opt, mps)))),
       t_optimizer := Some (fst ((opt_round T tg ^^ Suc d) (opt_round T tg (opt, mps)))),
       t_t := Some ((a + 1) + int d),
       t_loss := Some (overlap_loss T tg (snd ((opt_round T tg ^^ d) (opt_round T tg (opt, mps)))),
                       overlap_loss T tg)\<rparr>)"
    using Suc.IH[of ?s1 "snd (opt_round T tg (opt, mps))" "fst (opt_round T tg (opt, mps))" "a + 1"]
      Suc.prems
    by simp
  have e: "loop_events T tg (opt, mps) a (Suc (Suc d)) =
     round_events a (overlap_loss T tg mps) @
     loop_events T tg (opt_round T tg (opt, mps)) (a + 1) (Suc d)"
    using loop_events_Suc[of T tg "(opt, mps)" a "Suc d"] by simp
  have p: "(opt_round T tg ^^ Suc k) (opt, mps) = (opt_round T tg ^^ k) (opt_round T tg (opt, mps))" for k
    by (simp add: funpow_swap1)
  have a: "a + int (Suc d) = a + 1 + int d"
    by simp
  show ?case
    unfolding a e p
    unfolding l for_each.simps pseq_apply loop_body_run[OF Suc.prems] sum.case prod.case IH
    by simp
qed

lemma tcell1_run:
  "tcell1 st = Inr ((), st\<lparr>imported := imported st @ [''torch'', ''quimb'', ''quimb.tensor''],
     events := events st @ [Import ''torch'', Import ''quimb'', Import ''quimb.tensor'',
       Call ''qtn.set_contract_backend'']\<rparr>)"
  unfolding tcell1_def by (simp add: prog_apply del: block.simps)

lemma tcell2_run:
  assumes "''quimb'' \<in> set (imported st)"
  shows "tcell2 T st = Inr ((), st\<lparr>events := events st @ [Assign ''L'', Assign ''H'', Assign ''gs''],
     t_L := Some 16, t_H := Some (ham_heis T 16 True True),
     t_gs := Some (groundstate T (ham_heis T 16 True True))\<rparr>)"
  unfolding tcell2_def by (simp add: prog_apply assms del: block.simps)

lemma tcell3_run:
  assumes "''quimb.tensor'' \<in> set (imported st)" "''torch'' \<in> set (imported st)"
    "t_gs st = Some gs"
  shows "tcell3 T st = Inr ((), st\<lparr>events := events st @
       [Assign ''target'', Call ''target.apply_to_arrays''],
     t_target := Some (to_torch T (Dense1D T gs))\<rparr>)"
  unfolding tcell3_def by (simp add: prog_apply assms del: block.simps)

lemma tcell4_run:
  assumes "''quimb.tensor'' \<in> set (imported st)" "''torch'' \<in> set (imported st)"
    "t_L st = Some L"
  shows "tcell4 T st = Inr ((), st\<lparr>events := events st @
       [Assign ''bond_dim'', Assign ''mps'', Call ''mps.apply_to_arrays''],
     t_bond_dim := Some 32,
     t_mps := Some (to_torch_grad T (MPS_rand_state T L 32 True))\<rparr>)"
  unfolding tcell4_def by (simp add: prog_apply assms del: block.simps)

lemma tcell5_run:
  assumes "''torch'' \<in> set (imported st)" "t_mps st = Some mps" "t_target st = Some tg"
  shows "tcell5 T st = Inr ((), st\<lparr>events := events st @ [Assign ''optimizer''] @
       loop_events T tg (Adam T mps 0.01, mps) 1 100,
     t_mps := Some (snd ((opt_round T tg ^^ 100) (Adam T mps 0.01, mps))),
     t_optimizer := Some (fst ((opt_round T tg ^^ 100) (Adam T mps 0.01, mps))),
     t_t := Some 100,
     t_loss := Some (overlap_loss T tg (snd ((opt_round T tg ^^ 99) (Adam T mps 0.01, mps))),
                     overlap_loss T tg)\<rparr>)"
proof -
  have r: "py_range2 1 101 = [1..1 + int 99]"
    by (simp add: py_range2_def)
  have n: "Suc 99 = 100"
    by simp
  let ?s1 = "st\<lparr>t_optimizer := Some (Adam T mps 0.01), events := events st @ [Assign ''optimizer'']\<rparr>"
  have "t_mps ?s1 = Some mps" "t_target ?s1 = Some tg" "t_optimizer ?s1 = Some (Adam T mps 0.01)"
    using assms by simp_all
  note l = loop_run[OF this, of 1 99 T, unfolded n]
  have l': "for_each [1..100] (loop_body T) ?s1 = Inr ((),
     ?s1\<lparr>events := events ?s1 @ loop_events T tg (Adam T mps 0.01, mps) 1 100,
       t_mps := Some (snd ((opt_round T tg ^^ 100) (Adam T mps 0.01, mps))),
       t_optimizer := Some (fst ((opt_round T tg ^^ 100) (Adam T mps 0.01, mps))),
       t_t := Some 100,
       t_loss := Some (overlap_loss T tg (snd ((opt_round T tg ^^ 99) (Adam T mps 0.01, mps))),
                       overlap_loss T tg)\<rparr>)"
    using l by simp
  have c: "tcell5 T st = (case for_each [1..100] (loop_body T) ?s1 of
      Inl e \<Rightarrow> Inl e | Inr (x, s') \<Rightarrow> block [] s')"
    unfolding tcell5_def r
    by (simp add: prog_apply assms del: block.simps)
  show ?thesis
    unfolding c l' by (simp add: ret_apply)
qed

lemma tcell6_run:
  assumes "t_mps st = Some mps"
  shows "tcell6 T st = Inr ((), st\<lparr>events := events st @ [Assign ''mps'', Show ''mps @ mps''],
     t_mps := Some (divide_by T mps (sqrt (matmul T mps mps)))\<rparr>)"
  unfolding tcell6_def by (simp add: prog_apply assms del: block.simps)

lemma tcell7_run:
  assumes "t_mps st = Some mps" "t_target st = Some tg"
  shows "tcell7 st = Inr ((), st\<lparr>events := events st @ [Show ''(mps @ target)**2'']\<rparr>)"
  unfolding tcell7_def by (simp add: prog_apply assms)

lemma tcell8_run:
  assumes "t_mps st = Some mps"
  shows "tcell8 T st = Inr ((), st\<lparr>events := events st @ [Call ''mps.apply_to_arrays''],
     t_mps := Some (to_numpy T mps)\<rparr>)"
  unfolding tcell8_def by (simp add: prog_apply assms del: block.simps)

lemma tcell9_run:
  assumes "t_mps st = Some mps"
  shows "tcell9 st = Inr ((), st\<lparr>events := events st @ [Show ''type(mps[4].data)'']\<rparr>)"
  unfolding tcell9_def by (simp add: prog_apply assms)

lemmas tcell_runs = tcell1_run tcell2_run tcell3_run tcell4_run tcell5_run tcell6_run
  tcell7_run tcell8_run tcell9_run

lemma ex_torch_run:
  fixes T :: "('q, 'tn, 'opt) torch_lib"
  defines "final \<equiv> (opt_round T (ex_torch_target T) ^^ 100) (ex_torch_start T)"
  shows "run_cells (ex_torch T) fresh_torch = Inr
    \<lparr>imported = [''torch'', ''quimb'', ''quimb.tensor''],
     events = ex_torch_events T,
     t_L = Some 16,
     t_H = Some (ham_heis T 16 True True),
     t_gs = Some (groundstate T (ham_heis T 16 True True)),
     t_target = Some (ex_torch_target T),
     t_bond_dim = Some 32,
     t_mps = Some (to_numpy T (divide_by T (snd final) (sqrt (matmul T (snd final) (snd final))))),
     t_optimizer = Some (fst final),
     t_t = Some 100,
     t_loss = Some (overlap_loss T (ex_torch_target T)
         (snd ((opt_round T (ex_torch_target T) ^^ 99) (ex_torch_start T))),
       overlap_loss T (ex_torch_target T))\<rparr>"
  unfolding final_def ex_torch_target_def ex_torch_start_def Let_def
  by (simp add: ex_torch_def fresh_torch_def tcell_runs ex_torch_events_def
      ex_torch_target_def ex_torch_start_def Let_def del: funpow.simps)

section \<open>The notebooks\<close>

text \<open>
  Claim C7. The magnetization that the notebook computes is site-resolved. Cells 7 and
  8, run in a namespace where the library is imported and \<open>n\<close>, \<open>m\<close>, \<open>dims\<close>, \<open>gs\<close> are
  bound, bind \<open>m_ij\<close> to a grid of \<open>n\<close> rows of length \<open>m\<close> whose entry \<open>m_ij[i][j]\<close>, for
  every \<open>0 \<le> i < n\<close> and \<open>0 \<le> j < m\<close>, is \<open>expec(ikron(Sz, dims, [(i, j)]), gs)\<close>: the
  expectation in \<open>gs\<close> of the Z spin operator embedded at exactly the site \<open>(i, j)\<close>. In
  the notebook itself \<open>n = 4\<close>, \<open>m = 5\<close>, \<open>dims = [[2] * 5] * 4\<close> and \<open>gs\<close> is the state that
  \<open>eigh\<close> returned for the Hamiltonian built.
\<close>

theorem magnetization_site_resolved:
  fixes L :: "'q::monoid_add quimb"
  assumes "''quimb'' \<in> set (imported st)" "v_n st = Some n" "v_m st = Some m"
    "v_dims st = Some dims" "v_gs st = Some gs"
  shows "map_sum id v_m_ij (run_cells [cell7 L, cell8 ob] st) = Inr (Some (site_grid n m (magnetization L ob dims gs))) \<and>
    length (site_grid n m (magnetization L ob dims gs)) = nat n \<and>
    (\<forall>row\<in>set (site_grid n m (magnetization L ob dims gs)). length row = nat m) \<and>
    (\<forall>i j. 0 \<le> i \<and> i < n \<and> 0 \<le> j \<and> j < m \<longrightarrow>
       index2 (site_grid n m (magnetization L ob dims gs)) i j = Inr (magnetization L ob dims gs i j)) \<and>
    map_sum id v_m_ij (run_cells (ex_2d L ob) fresh_2d) =
      Inr (Some (site_grid 4 5 (magnetization L ob (dims_of 4 5) (snd (eigh ob (built_H L))))))"
proof -
  have 1: "map_sum id v_m_ij (run_cells [cell7 L, cell8 ob] st) = Inr (Some (site_grid n m (magnetization L ob dims gs)))"
    unfolding magnetization_def by (simp add: cell7_run cell8_run assms(1-5))
  have 2: "length (site_grid n m (magnetization L ob dims gs)) = nat n"
    by (simp add: site_grid_def length_py_range)
  have 3: "\<forall>row\<in>set (site_grid n m (magnetization L ob dims gs)). length row = nat m"
    by (auto simp: site_grid_def length_py_range)
  have 4: "\<forall>i j. 0 \<le> i \<and> i < n \<and> 0 \<le> j \<and> j < m \<longrightarrow>
       index2 (site_grid n m (magnetization L ob dims gs)) i j = Inr (magnetization L ob dims gs i j)"
    by (simp add: index2_site_grid set_py_range)
  have 5: "map_sum id v_m_ij (run_cells (ex_2d L ob) fresh_2d) =
      Inr (Some (site_grid 4 5 (magnetization L ob (dims_of 4 5) (snd (eigh ob (built_H L))))))"
    unfolding magnetization_def by (simp add: ex_2d_run)
  from 1 2 3 4 5 show ?thesis by (intro conjI)
qed

theorem magnetization_site_resolved_witness:
  "''quimb'' \<in> set (imported sample_2d) \<and> v_n sample_2d = Some 2 \<and> v_m sample_2d = Some 3 \<and>
   v_dims sample_2d = Some (dims_of 2 3) \<and> v_gs sample_2d = Some (eye 64) \<and>
   map_sum id v_m_ij (run_cells [cell7 qlib, cell8 sample_ob] sample_2d) =
     Inr (Some (site_grid 2 3 (magnetization qlib sample_ob (dims_of 2 3) (eye 64)))) \<and>
   index2 (site_grid 2 3 (magnetization qlib sample_ob (dims_of 2 3) (eye 64))) 1 2 =
     Inr (magnetization qlib sample_ob (dims_of 2 3) (eye 64) 1 2)"
proof -
  have h: "''quimb'' \<in> set (imported sample_2d)" "v_n sample_2d = Some 2" "v_m sample_2d = Some 3"
    "v_dims sample_2d = Some (dims_of 2 3)" "v_gs sample_2d = Some (eye 64)"
    by (simp_all add: sample_2d_def fresh_2d_def)
  note c = magnetization_site_resolved[OF h, of qlib sample_ob]
  from c have 1: "map_sum id v_m_ij (run_cells [cell7 qlib, cell8 sample_ob] sample_2d) =
     Inr (Some (site_grid 2 3 (magnetization qlib sample_ob (dims_of 2 3) (eye 64))))"
    by (rule conjunct1)
  from c have "\<forall>i j. 0 \<le> i \<and> i < 2 \<and> 0 \<le> j \<and> j < 3 \<longrightarrow>
       index2 (site_grid 2 3 (magnetization qlib sample_ob (dims_of 2 3) (eye 64))) i j =
         Inr (magnetization qlib sample_ob (dims_of 2 3) (eye 64) i j)"
    by (elim conjE)
  then have 2: "index2 (site_grid 2 3 (magnetization qlib sample_ob (dims_of 2 3) (eye 64))) 1 2 =
     Inr (magnetization qlib sample_ob (dims_of 2 3) (eye 64) 1 2)"
    by simp
  from h 1 2 show ?thesis
    by (intro conjI)
qed

lemma take5_ex_torch_run:
  "map_sum id (\<lambda>s. (t_optimizer s, t_mps s)) (run_cells (take 5 (ex_torch T)) fresh_torch) =
     Inr (Some (fst ((opt_round T (ex_torch_target T) ^^ 100) (ex_torch_start T))),
          Some (snd ((opt_round T (ex_torch_target T) ^^ 100) (ex_torch_start T))))"
  by (simp add: ex_torch_def fresh_torch_def tcell_runs
      ex_torch_target_def ex_torch_start_def Let_def del: funpow.simps)

text \<open>
  Claim C4. In the optimization notebook, every round of the loop computes the loss
  \<^verbatim>\<open>-(<mps|target>)^2 / <mps|mps>\<close> from the tensors as they are at its start, with no
  conjugation, and then applies exactly \<open>zero_grad\<close>, \<open>backward\<close> of this loss and \<open>step\<close>
  of the Adam optimizer, in this order, to the tensors of \<open>mps\<close>; every tenth round
  prints the loss. Cell 5 makes the optimizer from the tensors of \<open>mps\<close> with
  \<open>lr = 0.01\<close> and runs 100 such rounds; in the notebook they start from the random
  MPS and minimize against the dense ground state.
\<close>

theorem optimizer_loop_steps:
  assumes "t_mps st = Some mps" "t_target st = Some tg"
  shows
    "(t_optimizer st = Some opt \<longrightarrow>
       map_sum id (\<lambda>s. (t_loss s, t_optimizer s, t_mps s, events s)) (run_cells [loop_body T t] st) =
         Inr (Some (- (matmul T mps tg)\<^sup>2 / matmul T mps mps, overlap_loss T tg),
              Some (fst (step T opt (backward T (overlap_loss T tg) (zero_grad T opt mps)))),
              Some (snd (step T opt (backward T (overlap_loss T tg) (zero_grad T opt mps)))),
              events st @
              [Assign ''t'', Assign ''loss'', Call ''optimizer.zero_grad'', Call ''loss.backward'',
               Call ''optimizer.step''] @
              (if t mod 10 = 0 then [PrintRound t (- (matmul T mps tg)\<^sup>2 / matmul T mps mps)]
               else []))) \<and>
     (''torch'' \<in> set (imported st) \<longrightarrow>
       map_sum id (\<lambda>s. (t_optimizer s, t_mps s, events s)) (run_cells [tcell5 T] st) =
         Inr (Some (fst ((opt_round T tg ^^ 100) (Adam T mps 0.01, mps))),
              Some (snd ((opt_round T tg ^^ 100) (Adam T mps 0.01, mps))),
              events st @ [Assign ''optimizer''] @
              loop_events T tg (Adam T mps 0.01, mps) 1 100)) \<and>
     map_sum id (\<lambda>s. (t_optimizer s, t_mps s)) (run_cells (take 5 (ex_torch T)) fresh_torch) =
       Inr (Some (fst ((opt_round T (ex_torch_target T) ^^ 100) (ex_torch_start T))),
            Some (snd ((opt_round T (ex_torch_target T) ^^ 100) (ex_torch_start T))))"
proof -
  have 1: "map_sum id (\<lambda>s. (t_loss s, t_optimizer s, t_mps s, events s)) (run_cells [loop_body T t] st) =
         Inr (Some (- (matmul T mps tg)\<^sup>2 / matmul T mps mps, overlap_loss T tg),
              Some (fst (step T opt (backward T (overlap_loss T tg) (zero_grad T opt mps)))),
              Some (snd (step T opt (backward T (overlap_loss T tg) (zero_grad T opt mps)))),
              events st @
              [Assign ''t'', Assign ''loss'', Call ''optimizer.zero_grad'', Call ''loss.backward'',
               Call ''optimizer.step''] @
              (if t mod 10 = 0 then [PrintRound t (- (matmul T mps tg)\<^sup>2 / matmul T mps mps)]
               else []))"
    if "t_optimizer st = Some opt"
    using loop_body_run[OF assms that, of T t]
    by (simp add: round_events_def opt_round_def overlap_loss_def[of T tg mps])
  have 2: "map_sum id (\<lambda>s. (t_optimizer s, t_mps s, events s)) (run_cells [tcell5 T] st) =
         Inr (Some (fst ((opt_round T tg ^^ 100) (Adam T mps 0.01, mps))),
              Some (snd ((opt_round T tg ^^ 100) (Adam T mps 0.01, mps))),
              events st @ [Assign ''optimizer''] @
              loop_events T tg (Adam T mps 0.01, mps) 1 100)"
    if "''torch'' \<in> set (imported st)"
    using tcell5_run[OF that assms, of T]
    by (simp del: funpow.simps)
  from 1 2 take5_ex_torch_run show ?thesis
    by blast
qed

theorem optimizer_loop_steps_witness:
  "t_mps sample_torch_state = Some 2 \<and> t_target sample_torch_state = Some 3 \<and>
   t_optimizer sample_torch_state = Some 0 \<and> ''torch'' \<in> set (imported sample_torch_state) \<and>
   map_sum id (\<lambda>s. (t_optimizer s, t_mps s, events s)) (run_cells [loop_body sample_torch 10] sample_torch_state) =
     Inr (Some 1, Some 2,
       [Assign ''t'', Assign ''loss'', Call ''optimizer.zero_grad'', Call ''loss.backward'',
        Call ''optimizer.step'', PrintRound 10 (- 9)]) \<and>
   map_sum id (\<lambda>s. (t_optimizer s, t_mps s, events s)) (run_cells [tcell5 sample_torch] sample_torch_state) =
     Inr (Some (fst ((opt_round sample_torch 3 ^^ 100) (0, 2))),
          Some (snd ((opt_round sample_torch 3 ^^ 100) (0, 2))),
          [Assign ''optimizer''] @ loop_events sample_torch 3 (0, 2) 1 100)"
proof -
  have h: "t_mps sample_torch_state = Some 2" "t_target sample_torch_state = Some 3"
    and o: "t_optimizer sample_torch_state = Some 0"
    and i: "''torch'' \<in> set (imported sample_torch_state)"
    and e: "events sample_torch_state = []"
    by (simp_all add: sample_torch_state_def fresh_torch_def)
  note c = optimizer_loop_steps[OF h, of 0 sample_torch 10]
  from c o
  have "map_sum id (\<lambda>s. (t_loss s, t_optimizer s, t_mps s, events s))
      (run_cells [loop_body sample_torch 10] sample_torch_state) =
         Inr (Some (- (matmul sample_torch 2 3)\<^sup>2 / matmul sample_torch 2 2, overlap_loss sample_torch 3),
              Some (fst (step sample_torch 0 (backward sample_torch (overlap_loss sample_torch 3)
                (zero_grad sample_torch 0 2)))),
              Some (snd (step sample_torch 0 (backward sample_torch (overlap_loss sample_torch 3)
                (zero_grad sample_torch 0 2)))),
              events sample_torch_state @
              [Assign ''t'', Assign ''loss'', Call ''optimizer.zero_grad'', Call ''loss.backward'',
               Call ''optimizer.step''] @
              (if (10::int) mod 10 = 0 then [PrintRound 10 (- (matmul sample_torch 2 3)\<^sup>2 / matmul sample_torch 2 2)]
               else []))"
    by blast
  then have 1: "map_sum id (\<lambda>s. (t_optimizer s, t_mps s, events s))
      (run_cells [loop_body sample_torch 10] sample_torch_state) =
     Inr (Some 1, Some 2,
       [Assign ''t'', Assign ''loss'', Call ''optimizer.zero_grad'', Call ''loss.backward'',
        Call ''optimizer.step'', PrintRound 10 (- 9)])"
    by (auto simp: e sample_torch_def split: sum.splits)
  from c i
  have "map_sum id (\<lambda>s. (t_optimizer s, t_mps s, events s)) (run_cells [tcell5 sample_torch] sample_torch_state) =
         Inr (Some (fst ((opt_round sample_torch 3 ^^ 100) (Adam sample_torch 2 0.01, 2))),
              Some (snd ((opt_round sample_torch 3 ^^ 100) (Adam sample_torch 2 0.01, 2))),
              events sample_torch_state @ [Assign ''optimizer''] @
              loop_events sample_torch 3 (Adam sample_torch 2 0.01, 2) 1 100)"
    by blast
  moreover have "Adam sample_torch 2 0.01 = 0"
    by (simp add: sample_torch_def)
  ultimately have 2: "map_sum id (\<lambda>s. (t_optimizer s, t_mps s, events s))
      (run_cells [tcell5 sample_torch] sample_torch_state) =
     Inr (Some (fst ((opt_round sample_torch 3 ^^ 100) (0, 2))),
          Some (snd ((opt_round sample_torch 3 ^^ 100) (0, 2))),
          [Assign ''optimizer''] @ loop_events sample_torch 3 (0, 2) 1 100)"
    by (simp add: e del: funpow.simps)
  from h o i 1 2 show ?thesis
    by (intro conjI)
qed

lemma outputs_last_suffix:
  assumes "outputs_last (xs @ ys)"
  shows "outputs_last ys"
  using assms
proof (induction xs)
  case Nil
  then show ?case by simp
next
  case (Cons x xs)
  show ?case
  proof (cases "is_result_output x")
    case True
    with Cons.prems have "list_all (\<lambda>e. \<not> is_computation e) ys"
      by (simp add: outputs_last_def)
    then have "list_all (\<lambda>e. \<not> is_computation e) (dropWhile (\<lambda>e. \<not> is_result_output e) ys)"
      unfolding list_all_iff using set_dropWhileD by fast
    then show ?thesis by (simp add: outputs_last_def)
  next
    case False
    with Cons.prems have "outputs_last (xs @ ys)"
      by (simp add: outputs_last_def)
    then show ?thesis by (rule Cons.IH)
  qed
qed

lemma ex_2d_outputs_not_last: "\<not> outputs_last ex_2d_events"
  by (simp add: outputs_last_def ex_2d_events_def)

lemma ex_torch_outputs_not_last: "\<not> outputs_last (ex_torch_events T)"
proof
  assume "outputs_last (ex_torch_events T)"
  then have "outputs_last ([Assign ''mps'', Show ''mps @ mps'', Show ''(mps @ target)**2'',
      Call ''mps.apply_to_arrays'', Show ''type(mps[4].data)''])"
    unfolding ex_torch_events_def append_assoc[symmetric]
    by (rule outputs_last_suffix)
  then show False
    by (simp add: outputs_last_def)
qed

text \<open>
  Claim C6, amended. Each notebook runs its cells in order without reading a name that
  is not bound yet, so no step uses a value produced by a later step. The library is
  imported in the first cell; the Hamiltonian is built before the solver is called, on
  the Hamiltonian built; the observables (the magnetization, the reduced density
  matrices) and the target of the optimizer loop are computed after the solver call,
  from its result; every output shows a value bound before, and each notebook ends with
  an output. The outputs of results do not all come last: computing steps follow them.
\<close>

theorem notebooks_run_in_order:
  fixes L :: "'q::monoid_add quimb" and ob :: "'q observables" and T :: "('r, 'tn, 'opt) torch_lib"
  shows
    "map_sum id events (run_cells (ex_2d L ob) fresh_2d) = Inr ex_2d_events \<and>
     map_sum id v_H (run_cells (ex_2d L ob) fresh_2d) = Inr (Some (built_H L)) \<and>
     map_sum id v_gs (run_cells (ex_2d L ob) fresh_2d) = Inr (Some (snd (eigh ob (built_H L)))) \<and>
     map_sum id v_m_ij (run_cells (ex_2d L ob) fresh_2d) =
       Inr (Some (site_grid 4 5 (magnetization L ob (dims_of 4 5) (snd (eigh ob (built_H L)))))) \<and>
     map_sum id v_rho_ab_ij (run_cells (ex_2d L ob) fresh_2d) =
       Inr (Some (site_grid 4 5
         (\<lambda>i j. partial_trace ob (snd (eigh ob (built_H L))) (dims_of 4 5) [(1, 2), (i, j)]))) \<and>
     take 5 ex_2d_events =
       [Import ''itertools'', Import ''operator'', Import ''numpy'', Import ''quimb'',
        Assign ''ham_heis_2D''] \<and>
     is_result_output (last ex_2d_events) \<and>
     \<not> outputs_last ex_2d_events \<and>
     map_sum id events (run_cells (ex_torch T) fresh_torch) = Inr (ex_torch_events T) \<and>
     map_sum id t_gs (run_cells (ex_torch T) fresh_torch) =
       Inr (Some (groundstate T (ham_heis T 16 True True))) \<and>
     map_sum id t_target (run_cells (ex_torch T) fresh_torch) =
       Inr (Some (to_torch T (Dense1D T (groundstate T (ham_heis T 16 True True))))) \<and>
     take 3 (ex_torch_events T) = [Import ''torch'', Import ''quimb'', Import ''quimb.tensor''] \<and>
     is_result_output (last (ex_torch_events T)) \<and>
     \<not> outputs_last (ex_torch_events T)"
proof -
  have a: "take 5 ex_2d_events =
       [Import ''itertools'', Import ''operator'', Import ''numpy'', Import ''quimb'',
        Assign ''ham_heis_2D'']"
    by (simp add: ex_2d_events_def)
  have b: "is_result_output (last ex_2d_events)"
    by (simp add: ex_2d_events_def)
  have c: "take 3 (ex_torch_events T) = [Import ''torch'', Import ''quimb'', Import ''quimb.tensor'']"
    by (simp add: ex_torch_events_def)
  have d: "is_result_output (last (ex_torch_events T))"
    by (simp add: ex_torch_events_def)
  have e: "map_sum id v_m_ij (run_cells (ex_2d L ob) fresh_2d) =
       Inr (Some (site_grid 4 5 (magnetization L ob (dims_of 4 5) (snd (eigh ob (built_H L))))))"
    unfolding magnetization_def by (simp add: ex_2d_run)
  have f: "map_sum id t_target (run_cells (ex_torch T) fresh_torch) =
       Inr (Some (to_torch T (Dense1D T (groundstate T (ham_heis T 16 True True)))))"
    by (simp add: ex_torch_run ex_torch_target_def)
  show ?thesis
    by (intro conjI a b c d e f ex_2d_outputs_not_last ex_torch_outputs_not_last)
      (simp_all add: ex_2d_run ex_torch_run)
qed

text \<open>
  The claim C6 as stated, with printing and plotting of results last, fails: the run of
  the notebook displays \<open>ge[0]\<close> (event 16) before it computes \<open>m_ij\<close> (event 19).
\<close>

theorem outputs_not_last_counterexample:
  "map_sum id events (run_cells (ex_2d qlib sample_ob) fresh_2d) = Inr ex_2d_events \<and>
   ex_2d_events ! 16 = Show ''ge[0]'' \<and> ex_2d_events ! 19 = Assign ''m_ij'' \<and>
   \<not> outputs_last ex_2d_events"
proof -
  have "map_sum id events (run_cells (ex_2d qlib sample_ob) fresh_2d) = Inr ex_2d_events"
    by (simp add: ex_2d_run)
  moreover have "ex_2d_events ! 16 = Show ''ge[0]''" "ex_2d_events ! 19 = Assign ''m_ij''"
    by (simp_all add: ex_2d_events_def)
  ultimately show ?thesis
    using ex_2d_outputs_not_last by (intro conjI)
qed

lemma filter_calls_round: "filter is_call (round_events t v) = round_calls"
  by (simp add: round_events_def round_calls_def)

lemma filter_calls_loop:
  "filter is_call (loop_events T tg om a d) = concat (replicate d round_calls)"
proof -
  have "concat (map (\<lambda>i. round_calls) xs) = concat (replicate (length xs) round_calls)" for xs :: "nat list"
    by (induction xs) simp_all
  from this[of "[0..<d]"] show ?thesis
    by (simp add: loop_events_def filter_concat comp_def filter_calls_round)
qed

lemma all_terms_are_ikron:
  assumes "t \<in> set (all_terms L n m j bz c)"
  shows "\<exists>A inds. t = ikron L A (dims_of n m) inds"
proof -
  from assms consider p s where "t = interactions L (dims_of n m) j (p, s)"
    | site where "t = fields_z L (dims_of n m) bz site"
    by (auto simp: all_terms_def Let_def split: if_splits)
  then show ?thesis
  proof cases
    case 1
    then show ?thesis unfolding interactions_def by (simp add: Let_def) blast
  next
    case 2
    then show ?thesis unfolding fields_z_def by (simp add: Let_def) blast
  qed
qed

lemma ex_torch_calls:
  "map_sum id (\<lambda>s. filter is_call (events s)) (run_cells (ex_torch T) fresh_torch) =
     Inr ([Call ''qtn.set_contract_backend'', Call ''target.apply_to_arrays'',
           Call ''mps.apply_to_arrays''] @
          concat (replicate 100 round_calls) @ [Call ''mps.apply_to_arrays''])"
  by (simp add: ex_torch_run ex_torch_events_def filter_calls_loop)

lemma take4_ex_torch_run:
  "map_sum id t_mps (run_cells (take 4 (ex_torch T)) fresh_torch) =
     Inr (Some (to_torch_grad T (MPS_rand_state T 16 32 True)))"
  by (simp add: ex_torch_def fresh_torch_def tcell_runs)

text \<open>
  Claim C2, amended. Every operation on operators and states in the two notebooks is a
  call into the library, and the notebooks do the assembly and the loop themselves.
  \<open>ham_heis_2D\<close> enumerates the bonds with \<open>gen_pairs\<close> and sums terms each of which is one
  call of \<open>ikron\<close>, three for each pair yielded and one for each site if \<open>bz \<noteq> 0\<close>; when
  there is a term, it returns the matrix that the sum of these terms gives, passed
  through the conversions at its end. In \<open>ex_2d.ipynb\<close> the ground state is the result of
  one call of \<open>eigh\<close> on the Hamiltonian built; each entry of \<open>Sz_ij\<close> is one call of
  \<open>ikron\<close>, of \<open>m_ij\<close> one call of \<open>expec\<close>, of \<open>rho_ab_ij\<close> one call of \<open>partial_trace\<close>, of
  \<open>mi_ij\<close> one call of \<open>mutinf\<close> and of \<open>cy_ij\<close> one call of the function that \<open>correlation\<close>
  returned, the last two on the reduced state, which one call of \<open>purify\<close> replaces at the
  target site. In the optimization notebook the ground state is one call of
  \<open>groundstate\<close> on the result of \<open>ham_heis\<close>, the target one call of \<open>Dense1D\<close> on it, the
  MPS one call of \<open>MPS_rand_state\<close>, and the optimization is a loop of 100 rounds in the
  notebook, each making the three calls \<open>zero_grad\<close>, \<open>backward\<close>, \<open>step\<close>.
\<close>

theorem local_assembly_and_loop:
  fixes L :: "'q::monoid_add quimb" and ob :: "'q observables" and T :: "('r, 'tn, 'opt) torch_lib"
  shows
    "(\<forall>t\<in>set (all_terms L n m j bz c). \<exists>A inds. t = ikron L A (dims_of n m) inds) \<and>
     length (all_terms L n m j bz c) =
       3 * length (gen_pairs n m c) + (if bz \<noteq> 0 then length (sites n m) else 0) \<and>
     (all_terms L n m j bz c \<noteq> [] \<longrightarrow>
        ham_heis_2D L n m j bz c sparse =
          Inr (Matrix (finish_matrix L sparse (sum_list (all_terms L n m j bz c))))) \<and>
     map_sum id v_H (run_cells (ex_2d L ob) fresh_2d) = Inr (Some (built_H L)) \<and>
     map_sum id v_gs (run_cells (ex_2d L ob) fresh_2d) = Inr (Some (snd (eigh ob (built_H L)))) \<and>
     map_sum id v_Sz_ij (run_cells (ex_2d L ob) fresh_2d) =
       Inr (Some (site_grid 4 5 (\<lambda>i j. ikron L (spin_operator L CHR ''Z'') (dims_of 4 5) [(i, j)]))) \<and>
     map_sum id v_m_ij (run_cells (ex_2d L ob) fresh_2d) =
       Inr (Some (site_grid 4 5 (\<lambda>i j.
         expec ob (ikron L (spin_operator L CHR ''Z'') (dims_of 4 5) [(i, j)])
           (snd (eigh ob (built_H L)))))) \<and>
     map_sum id v_rho_ab_ij (run_cells (ex_2d L ob) fresh_2d) =
       Inr (Some (site_grid 4 5 (rho_ab ob (dims_of 4 5) (snd (eigh ob (built_H L)))))) \<and>
     map_sum id v_mi_ij (run_cells (ex_2d L ob) fresh_2d) =
       Inr (Some (site_grid 4 5 (\<lambda>i j.
         mutinf ob (rho_ab_purified ob (dims_of 4 5) (snd (eigh ob (built_H L))) i j)))) \<and>
     map_sum id v_cy_ij (run_cells (ex_2d L ob) fresh_2d) =
       Inr (Some (site_grid 4 5 (\<lambda>i j.
         correlation ob (spin_operator L CHR ''y'') (spin_operator L CHR ''y'') 0 1 [2, 2]
           (rho_ab_purified ob (dims_of 4 5) (snd (eigh ob (built_H L))) i j)))) \<and>
     map_sum id t_gs (run_cells (ex_torch T) fresh_torch) =
       Inr (Some (groundstate T (ham_heis T 16 True True))) \<and>
     map_sum id t_target (run_cells (ex_torch T) fresh_torch) =
       Inr (Some (to_torch T (Dense1D T (groundstate T (ham_heis T 16 True True))))) \<and>
     map_sum id t_mps (run_cells (take 4 (ex_torch T)) fresh_torch) =
       Inr (Some (to_torch_grad T (MPS_rand_state T 16 32 True))) \<and>
     map_sum id (\<lambda>s. filter is_call (events s)) (run_cells (ex_torch T) fresh_torch) =
       Inr ([Call ''qtn.set_contract_backend'', Call ''target.apply_to_arrays'',
             Call ''mps.apply_to_arrays''] @
            concat (replicate 100 round_calls) @ [Call ''mps.apply_to_arrays''])"
proof -
  have 1: "\<forall>t\<in>set (all_terms L n m j bz c). \<exists>A inds. t = ikron L A (dims_of n m) inds"
    by (intro ballI all_terms_are_ikron)
  have 2: "length (all_terms L n m j bz c) =
       3 * length (gen_pairs n m c) + (if bz \<noteq> 0 then length (sites n m) else 0)"
    by (simp add: length_all_terms length_pairs_ss)
  have 3: "all_terms L n m j bz c \<noteq> [] \<longrightarrow>
        ham_heis_2D L n m j bz c sparse =
          Inr (Matrix (finish_matrix L sparse (sum_list (all_terms L n m j bz c))))"
    by (intro impI ham_heis_2D_terms)
  have 4: "map_sum id v_H (run_cells (ex_2d L ob) fresh_2d) = Inr (Some (built_H L))"
    by (simp add: ex_2d_run)
  have 5: "map_sum id v_gs (run_cells (ex_2d L ob) fresh_2d) = Inr (Some (snd (eigh ob (built_H L))))"
    by (simp add: ex_2d_run)
  have 6: "map_sum id v_Sz_ij (run_cells (ex_2d L ob) fresh_2d) =
       Inr (Some (site_grid 4 5 (\<lambda>i j. ikron L (spin_operator L CHR ''Z'') (dims_of 4 5) [(i, j)])))"
    by (simp add: ex_2d_run)
  have 7: "map_sum id v_m_ij (run_cells (ex_2d L ob) fresh_2d) =
       Inr (Some (site_grid 4 5 (\<lambda>i j.
         expec ob (ikron L (spin_operator L CHR ''Z'') (dims_of 4 5) [(i, j)])
           (snd (eigh ob (built_H L))))))"
    by (simp add: ex_2d_run)
  have r: "rho_ab ob dims gs = (\<lambda>i j. partial_trace ob gs dims [(1, 2), (i, j)])" for dims gs
    by (simp add: rho_ab_def fun_eq_iff)
  have 8: "map_sum id v_rho_ab_ij (run_cells (ex_2d L ob) fresh_2d) =
       Inr (Some (site_grid 4 5 (rho_ab ob (dims_of 4 5) (snd (eigh ob (built_H L))))))"
    unfolding r by (simp add: ex_2d_run)
  have 9: "map_sum id v_mi_ij (run_cells (ex_2d L ob) fresh_2d) =
       Inr (Some (site_grid 4 5 (\<lambda>i j.
         mutinf ob (rho_ab_purified ob (dims_of 4 5) (snd (eigh ob (built_H L))) i j))))"
    unfolding rho_ab_purified_def rho_ab_def by (simp add: ex_2d_run)
  have 10: "map_sum id v_cy_ij (run_cells (ex_2d L ob) fresh_2d) =
       Inr (Some (site_grid 4 5 (\<lambda>i j.
         correlation ob (spin_operator L CHR ''y'') (spin_operator L CHR ''y'') 0 1 [2, 2]
           (rho_ab_purified ob (dims_of 4 5) (snd (eigh ob (built_H L))) i j))))"
    unfolding rho_ab_purified_def rho_ab_def by (simp add: ex_2d_run)
  have 11: "map_sum id t_gs (run_cells (ex_torch T) fresh_torch) =
       Inr (Some (groundstate T (ham_heis T 16 True True)))"
    by (simp add: ex_torch_run)
  have 12: "map_sum id t_target (run_cells (ex_torch T) fresh_torch) =
       Inr (Some (to_torch T (Dense1D T (groundstate T (ham_heis T 16 True True)))))"
    by (simp add: ex_torch_run ex_torch_target_def)
  from 1 2 3 4 5 6 7 8 9 10 11 12 take4_ex_torch_run ex_torch_calls show ?thesis
    by (intro conjI)
qed

lemma sum_list_ikron_count:
  "sum_list (all_terms ikron_count n m j 0 c) = length (pairs_ss n m c)"
proof -
  have i: "interactions ikron_count (dims_of n m) j = (\<lambda>p. 1)"
    by (simp add: interactions_def ikron_count_def fun_eq_iff)
  have "sum_list (map (\<lambda>p. 1::nat) xs) = length xs" for xs :: "(bond \<times> char) list"
    by (induction xs) simp_all
  then show ?thesis
    by (simp add: all_terms_def i)
qed

theorem local_assembly_and_loop_witness:
  "ikron qlib (smul qlib 1 (spin_operator qlib CHR ''x'')) (dims_of 1 2) [(0, 0), (0, 1)]
     \<in> set (all_terms qlib 1 2 1 0 False) \<and>
   length (all_terms qlib 1 2 1 0 False) = 3 * length (gen_pairs 1 2 False) + 0 \<and>
   all_terms qlib 1 2 1 0 False \<noteq> [] \<and>
   ham_heis_2D qlib 1 2 1 0 False False =
     Inr (Matrix (finish_matrix qlib False (sum_list (all_terms qlib 1 2 1 0 False)))) \<and>
   map_sum id v_rho_ab_ij (run_cells (ex_2d qlib sample_ob) fresh_2d) =
     Inr (Some (site_grid 4 5 (rho_ab sample_ob (dims_of 4 5) (snd (eigh sample_ob (built_H qlib)))))) \<and>
   map_sum id v_mi_ij (run_cells (ex_2d qlib sample_ob) fresh_2d) =
     Inr (Some (site_grid 4 5 (\<lambda>i j. mutinf sample_ob
       (rho_ab_purified sample_ob (dims_of 4 5) (snd (eigh sample_ob (built_H qlib))) i j)))) \<and>
   map_sum id t_mps (run_cells (take 4 (ex_torch sample_torch)) fresh_torch) =
     Inr (Some (to_torch_grad sample_torch (MPS_rand_state sample_torch 16 32 True))) \<and>
   map_sum id (\<lambda>s. filter is_call (events s)) (run_cells (ex_torch sample_torch) fresh_torch) =
       Inr ([Call ''qtn.set_contract_backend'', Call ''target.apply_to_arrays'',
             Call ''mps.apply_to_arrays''] @
            concat (replicate 100 round_calls) @ [Call ''mps.apply_to_arrays''])"
proof -
  note c = local_assembly_and_loop[of qlib 1 2 1 0 False False sample_ob sample_torch]
  have g: "gen_pairs 1 2 False = [((0, 0), (0, 1))]"
    by code_simp
  have 1: "ikron qlib (smul qlib 1 (spin_operator qlib CHR ''x'')) (dims_of 1 2) [(0, 0), (0, 1)]
     \<in> set (all_terms qlib 1 2 1 0 False)"
    by (simp add: all_terms_def pairs_ss_def g interactions_def Let_def)
  from c have 2: "length (all_terms qlib 1 2 1 0 False) = 3 * length (gen_pairs 1 2 False) + 0"
    by simp
  from 1 have 3: "all_terms qlib 1 2 1 0 False \<noteq> []"
    by auto
  from c have "all_terms qlib 1 2 1 0 False \<noteq> [] \<longrightarrow>
     ham_heis_2D qlib 1 2 1 0 False False =
       Inr (Matrix (finish_matrix qlib False (sum_list (all_terms qlib 1 2 1 0 False))))"
    by (elim conjE)
  with 3 have 4: "ham_heis_2D qlib 1 2 1 0 False False =
     Inr (Matrix (finish_matrix qlib False (sum_list (all_terms qlib 1 2 1 0 False))))"
    by (rule rev_mp)
  from c have 5: "map_sum id v_rho_ab_ij (run_cells (ex_2d qlib sample_ob) fresh_2d) =
     Inr (Some (site_grid 4 5 (rho_ab sample_ob (dims_of 4 5) (snd (eigh sample_ob (built_H qlib))))))"
    by (elim conjE)
  from c have 6: "map_sum id v_mi_ij (run_cells (ex_2d qlib sample_ob) fresh_2d) =
     Inr (Some (site_grid 4 5 (\<lambda>i j. mutinf sample_ob
       (rho_ab_purified sample_ob (dims_of 4 5) (snd (eigh sample_ob (built_H qlib))) i j))))"
    by (elim conjE)
  from c have 7: "map_sum id t_mps (run_cells (take 4 (ex_torch sample_torch)) fresh_torch) =
     Inr (Some (to_torch_grad sample_torch (MPS_rand_state sample_torch 16 32 True)))"
    by (elim conjE)
  from c have 8: "map_sum id (\<lambda>s. filter is_call (events s)) (run_cells (ex_torch sample_torch) fresh_torch) =
       Inr ([Call ''qtn.set_contract_backend'', Call ''target.apply_to_arrays'',
             Call ''mps.apply_to_arrays''] @
            concat (replicate 100 round_calls) @ [Call ''mps.apply_to_arrays''])"
    by (elim conjE)
  from 1 2 3 4 5 6 7 8 show ?thesis
    by (intro conjI)
qed

text \<open>
  The claim C2 as stated, every operation a single call into the library and no
  algorithm in the notebooks, fails: with the library instance that counts the calls of
  \<open>ikron\<close>, the Hamiltonian of the 4-by-5 lattice is assembled from 93 embedded terms,
  and the run of the optimization notebook makes 100 calls of \<open>optimizer.step\<close>.
\<close>

theorem single_call_counterexample:
  "ham_heis_2D ikron_count 4 5 1 0 False True = Inr (Matrix 93) \<and>
   map_sum id (\<lambda>s. length (filter (\<lambda>e. e = Call ''optimizer.step'') (events s)))
     (run_cells (ex_torch sample_torch) fresh_torch) = Inr 100"
proof -
  have l: "int (length (pairs_ss 4 5 False)) = 93"
    using length_gen_pairs_open[of 4 5] by (simp add: length_pairs_ss)
  have 1: "ham_heis_2D ikron_count 4 5 1 0 False True = Inr (Matrix 93)"
    unfolding ham_heis_2D_4_5 sum_list_ikron_count
    using l by (simp add: finish_matrix_def ikron_count_def)
  have r: "filter (\<lambda>e. e = Call ''optimizer.step'') (round_events t v) = [Call ''optimizer.step'']" for t v
    by (simp add: round_events_def)
  have "concat (map (\<lambda>i. [x]) xs) = replicate (length xs) x" for xs :: "nat list" and x :: event
    by (induction xs) simp_all
  from this[of _ "[0..<100]"]
  have "filter (\<lambda>e. e = Call ''optimizer.step'') (loop_events T tg om a 100) =
      replicate 100 (Call ''optimizer.step'')" for T :: "(real, real, nat) torch_lib" and tg om a
    by (simp add: loop_events_def filter_concat comp_def r)
  then have 2: "map_sum id (\<lambda>s. length (filter (\<lambda>e. e = Call ''optimizer.step'') (events s)))
     (run_cells (ex_torch sample_torch) fresh_torch) = Inr 100"
    by (simp add: ex_torch_run ex_torch_events_def)
  from 1 2 show ?thesis
    by (rule conjI)
qed

end
